theory Spec2Isabelle
  imports Complex_Main "HOL-Library.Word" "HOL-Library.Extended_Nat"
begin

section \<open>JavaScript strings and values\<close>

text \<open>
  A JavaScript string is a sequence of UTF-16 code units; \<open>length\<close>, \<open>substring\<close>,
  \<open>split\<close> and \<open>trim\<close> all count and compare code units.  \<open>ustr\<close> writes an ASCII
  literal.
\<close>

type_synonym ustring = "16 word list"

definition ustr :: "string \<Rightarrow> ustring" where
  "ustr s = map of_char s"

text \<open>
  The values \<open>JSON.parse\<close> can return.  A number is a finite value or, on overflow
  (\<open>1e999\<close>), an infinity; \<open>NaN\<close> is never the result of \<open>JSON.parse\<close>.  An object is its
  list of own properties.
\<close>

datatype number = Num rat | PosInfinity | NegInfinity

datatype jsval =
    JNull
  | JBool bool
  | JNum number
  | JStr ustring
  | JArr "jsval list"
  | JObj "(ustring \<times> jsval) list"

text \<open>\<open>!v\<close> is false exactly on the truthy values.\<close>

fun truthy :: "jsval \<Rightarrow> bool" where
  "truthy JNull = False"
| "truthy (JBool b) = b"
| "truthy (JNum n) = (n \<noteq> Num 0)"
| "truthy (JStr s) = (s \<noteq> [])"
| "truthy (JArr _) = True"
| "truthy (JObj _) = True"

text \<open>\<open>typeof v === 'object'\<close>: objects, arrays and \<open>null\<close>.\<close>

fun typeof_object :: "jsval \<Rightarrow> bool" where
  "typeof_object JNull = True"
| "typeof_object (JArr _) = True"
| "typeof_object (JObj _) = True"
| "typeof_object _ = False"

text \<open>
  \<open>parsed.resourceType\<close> on a value that passed the object check: an own property of
  an object, \<open>undefined\<close> (here \<open>None\<close>) when the object has none, and \<open>undefined\<close> on an
  array, whose prototype chain has no such property.
\<close>

fun get_resourceType :: "jsval \<Rightarrow> jsval option" where
  "get_resourceType (JObj props) = map_of props (ustr ''resourceType'')"
| "get_resourceType _ = None"

text \<open>
  \<open>a === b\<close> for two values that come from two different calls of \<open>JSON.parse\<close>:
  primitives compare by value, objects and arrays by identity, and two calls never
  return the same object.
\<close>

fun strict_equals :: "jsval \<Rightarrow> jsval \<Rightarrow> bool" where
  "strict_equals JNull JNull = True"
| "strict_equals (JBool a) (JBool b) = (a = b)"
| "strict_equals (JNum a) (JNum b) = (a = b)"
| "strict_equals (JStr a) (JStr b) = (a = b)"
| "strict_equals _ _ = False"

text \<open>
  What the code takes from the JavaScript platform rather than computing itself.
  Time values are the milliseconds of \<open>Date.prototype.getTime\<close>; an invalid date
  (\<open>NaN\<close>) is \<open>None\<close>.  The calendar getters read the local time zone.
  A number is an IEEE double, here the real it denotes; \<open>fl\<close> rounds a real to the
  nearest double, so that an arithmetic operator of the code returns \<open>fl\<close> of the exact
  result.
\<close>

record platform =
  JSON_parse :: "ustring \<Rightarrow> ustring + jsval"
  ToString :: "jsval \<Rightarrow> ustring"
  Date_parse :: "ustring \<Rightarrow> int option"
  getFullYear :: "int \<Rightarrow> int"
  getMonth :: "int \<Rightarrow> int"
  getDate :: "int \<Rightarrow> int"
  toLocaleDateString :: "int \<Rightarrow> ustring"
  toLocaleMonthYear :: "int option \<Rightarrow> ustring"
  localeCompare :: "ustring \<Rightarrow> ustring \<Rightarrow> int"
  Math_sqrt :: "real \<Rightarrow> real"
  Math_pow :: "real \<Rightarrow> real \<Rightarrow> real"
  fl :: "real \<Rightarrow> real"

section \<open>String helpers\<close>



text \<open>The code units \<open>String.prototype.trim\<close> removes: white space and line terminators.\<close>

definition is_whitespace :: "16 word \<Rightarrow> bool" where
  "is_whitespace c \<longleftrightarrow>
     c = 0x09 \<or> c = 0x0A \<or> c = 0x0B \<or> c = 0x0C \<or> c = 0x0D \<or> c = 0x20 \<or> c = 0xA0
     \<or> c = 0x1680 \<or> (0x2000 \<le> c \<and> c \<le> 0x200A) \<or> c = 0x2028 \<or> c = 0x2029
     \<or> c = 0x202F \<or> c = 0x205F \<or> c = 0x3000 \<or> c = 0xFEFF"

definition trim :: "ustring \<Rightarrow> ustring" where
  "trim s = rev (dropWhile is_whitespace (rev (dropWhile is_whitespace s)))"

definition digit_char :: "nat \<Rightarrow> 16 word" where
  "digit_char d = of_nat (48 + d)"

fun show_nat :: "nat \<Rightarrow> ustring" where
  "show_nat n = (if n < 10 then [digit_char n] else show_nat (n div 10) @ [digit_char (n mod 10)])"

declare show_nat.simps [simp del]


section \<open>The NDJSON parser (\<open>ndjsonParser.ts\<close>)\<close>

definition MAX_ERROR_LINE_LENGTH :: nat where
  "MAX_ERROR_LINE_LENGTH = 100"

definition MAX_ERRORS_STORED :: nat where
  "MAX_ERRORS_STORED = 50"

record ParseError =
  lineNumber :: nat
  message :: ustring
  rawLine :: "ustring option"

record ParseResult =
  resources :: "jsval list"
  resourceType :: jsval
  pseudoFileName :: ustring
  totalLines :: nat
  validLines :: nat
  invalidLines :: nat
  errors :: "ParseError list"
  parseTimeMs :: real

text \<open>The local variables of \<open>parseNdjson\<close> that the loop updates.\<close>

record parse_state =
  st_resources :: "jsval list"
  st_errors :: "ParseError list"
  detectedResourceType :: "jsval option"
  resourceTypeMismatchCount :: nat
  st_validLines :: nat
  st_invalidLines :: nat

text \<open>
  The \<open>try\<close> block up to the point where the line is known to be a resource: \<open>Inl\<close> is
  the message of the error thrown (by \<open>JSON.parse\<close> or by one of the two checks),
  \<open>Inr\<close> the parsed value with its \<open>resourceType\<close>.
\<close>

definition try_parse :: "platform \<Rightarrow> ustring \<Rightarrow> ustring + jsval \<times> jsval" where
  "try_parse P line =
     (case JSON_parse P line of
        Inl msg \<Rightarrow> Inl msg
      | Inr parsed \<Rightarrow>
          if \<not> truthy parsed \<or> \<not> typeof_object parsed
          then Inl (ustr ''Parsed value is not an object'')
          else (case get_resourceType parsed of
                  None \<Rightarrow> Inl (ustr ''Missing resourceType field'')
                | Some rt \<Rightarrow>
                    if \<not> truthy rt then Inl (ustr ''Missing resourceType field'')
                    else Inr (parsed, rt)))"

definition raw_excerpt :: "ustring \<Rightarrow> ustring" where
  "raw_excerpt line =
     (if length line > MAX_ERROR_LINE_LENGTH
      then take MAX_ERROR_LINE_LENGTH line @ ustr ''...''
      else line)"

text \<open>One iteration of the loop, for the line at index \<open>i\<close>.\<close>

definition process_line :: "platform \<Rightarrow> nat \<Rightarrow> ustring \<Rightarrow> parse_state \<Rightarrow> parse_state" where
  "process_line P i raw st =
     (let line = trim raw; lineNumber = i + 1 in
      if line = [] then st
      else (case try_parse P line of
              Inr (parsed, rt) \<Rightarrow>
                (case detectedResourceType st of
                   None \<Rightarrow>
                     st\<lparr>detectedResourceType := Some rt,
                        st_resources := st_resources st @ [parsed],
                        st_validLines := st_validLines st + 1\<rparr>
                 | Some d \<Rightarrow>
                     st\<lparr>resourceTypeMismatchCount :=
                          (if \<not> strict_equals rt d then resourceTypeMismatchCount st + 1
                           else resourceTypeMismatchCount st),
                        st_resources := st_resources st @ [parsed],
                        st_validLines := st_validLines st + 1\<rparr>)
            | Inl msg \<Rightarrow>
                st\<lparr>st_invalidLines := st_invalidLines st + 1,
                   st_errors :=
                     (if length (st_errors st) < MAX_ERRORS_STORED
                      then st_errors st @
                           [\<lparr>lineNumber = lineNumber, message = msg,
                             rawLine = Some (raw_excerpt line)\<rparr>]
                      else st_errors st)\<rparr>))"

fun parse_loop :: "platform \<Rightarrow> nat \<Rightarrow> ustring list \<Rightarrow> parse_state \<Rightarrow> parse_state" where
  "parse_loop P i [] st = st"
| "parse_loop P i (raw # rest) st = parse_loop P (i + 1) rest (process_line P i raw st)"













section \<open>FHIR records (\<open>types/fhir.ts\<close>)\<close>

text \<open>
  The records at their declared types, with the fields the analyzers read.  An optional
  field is an \<open>option\<close>.  Field names carry the name of their record, since several
  records share names and some names (\<open>end\<close>, \<open>class\<close>, \<open>type\<close>, \<open>text\<close>, \<open>id\<close>) are
  taken in Isabelle.
\<close>

record FhirCoding =
  coding_code :: "ustring option"
  coding_display :: "ustring option"

record FhirCodeableConcept =
  cc_coding :: "FhirCoding list option"
  cc_text :: "ustring option"

record FhirPeriod =
  period_start :: "ustring option"
  period_end :: "ustring option"

record FhirReference =
  ref_reference :: "ustring option"

record FhirAddress =
  addr_city :: "ustring option"
  addr_state :: "ustring option"

datatype FhirExtension =
  FhirExtension
    (ext_url: ustring)
    (ext_valueString: "ustring option")
    (ext_valueCoding: "FhirCoding option")
    (ext_extension: "FhirExtension list option")

record FhirPatient =
  pat_id :: "ustring option"
  pat_gender :: "ustring option"
  pat_birthDate :: "ustring option"
  pat_deceasedBoolean :: "bool option"
  pat_deceasedDateTime :: "ustring option"
  pat_address :: "FhirAddress list option"
  pat_extension :: "FhirExtension list option"

record FhirEncounter =
  enc_id :: "ustring option"
  enc_status :: "ustring option"
  enc_class :: "FhirCoding option"
  enc_type :: "FhirCodeableConcept list option"
  enc_subject :: "FhirReference option"
  enc_period :: "FhirPeriod option"

text \<open>An optional string in a condition: absent and empty are both false.\<close>

fun present :: "ustring option \<Rightarrow> bool" where
  "present None = False"
| "present (Some s) = (s \<noteq> [])"



section \<open>Analytics results (\<open>types/analytics.ts\<close>)\<close>

text \<open>
  Counts are natural numbers; percentages, means and durations are JavaScript numbers,
  taken here as exact reals (the rounding of floating-point arithmetic is not part of
  the model).  A bucket's upper bound may be \<open>Infinity\<close>.
\<close>

record 'l DistributionItem =
  label :: 'l
  count :: nat
  percentage :: real

record TimeSeriesPoint =
  date :: ustring
  count :: nat
  label :: ustring

record HistogramBucket =
  bmin :: nat
  bmax :: enat
  label :: ustring
  count :: nat

record DateRange =
  range_min :: "int option"
  range_max :: "int option"
  minFormatted :: ustring
  maxFormatted :: ustring

record Stats =
  mean :: real
  median :: real
  stat_min :: real
  stat_max :: real

record AgeStats = Stats +
  stdDev :: real

record LosStats = Stats +
  encountersWithLos :: nat

text \<open>
  What \<open>getClassDisplay\<close> can return: a string, or, when the code names a member that
  the lookup object inherits from \<open>Object.prototype\<close>, that member.
\<close>

datatype display = Str ustring | Inherited ustring

record PatientAnalytics =
  totalPatients :: nat
  uniqueIds :: nat
  genderDistribution :: "ustring DistributionItem list"
  ageDistribution :: "HistogramBucket list"
  ageStats :: AgeStats
  raceDistribution :: "ustring DistributionItem list"
  ethnicityDistribution :: "ustring DistributionItem list"
  stateDistribution :: "ustring DistributionItem list"
  cityDistribution :: "ustring DistributionItem list"
  livingCount :: nat
  deceasedCount :: nat
  mortalityRate :: real
  birthDateRange :: DateRange
  missingBirthDate :: nat
  missingGender :: nat
  missingAddress :: nat

record EncounterAnalytics =
  totalEncounters :: nat
  uniqueEncounterIds :: nat
  uniquePatientRefs :: nat
  classDistribution :: "display DistributionItem list"
  typeDistribution :: "ustring DistributionItem list"
  statusDistribution :: "ustring DistributionItem list"
  encountersByMonth :: "TimeSeriesPoint list"
  periodCoverage :: DateRange
  losDistribution :: "HistogramBucket list"
  losStats :: LosStats
  encountersPerPatient :: "HistogramBucket list"
  encountersPerPatientStats :: Stats
  missingPeriodStart :: nat
  missingPeriodEnd :: nat
  missingClass :: nat
  missingSubject :: nat

section \<open>Helpers shared by the two analyzers\<close>

text \<open>
  A \<open>Map\<close> keeps its keys in insertion order.  \<open>bump\<close> is the pair of statements
  \<open>current = counts.get(k) || 0; counts.set(k, current + 1)\<close>.
\<close>

fun bump :: "'k \<Rightarrow> ('k \<times> nat) list \<Rightarrow> ('k \<times> nat) list" where
  "bump k [] = [(k, 1)]"
| "bump k ((k', n) # rest) = (if k = k' then (k', n + 1) # rest else (k', n) # bump k rest)"

text \<open>
  \<open>Array.prototype.sort\<close> with a comparator: a stable sort, here by insertion from the
  right, so that of two elements the comparator ties the earlier one stays first.
\<close>

fun insert_by :: "('a \<Rightarrow> 'a \<Rightarrow> bool) \<Rightarrow> 'a \<Rightarrow> 'a list \<Rightarrow> 'a list" where
  "insert_by le x [] = [x]"
| "insert_by le x (y # ys) = (if le x y then x # y # ys else y # insert_by le x ys)"

definition sort_by :: "('a \<Rightarrow> 'a \<Rightarrow> bool) \<Rightarrow> 'a list \<Rightarrow> 'a list" where
  "sort_by le xs = foldr (insert_by le) xs []"

text \<open>
  The arithmetic operators \<open>+\<close>, \<open>-\<close>, \<open>*\<close> and \<open>/\<close> on doubles, and
  \<open>values.reduce((a, b) => a + b, 0)\<close>, which adds from the left.
\<close>

definition fadd :: "platform \<Rightarrow> real \<Rightarrow> real \<Rightarrow> real" where
  "fadd P a b = fl P (a + b)"

definition fsub :: "platform \<Rightarrow> real \<Rightarrow> real \<Rightarrow> real" where
  "fsub P a b = fl P (a - b)"

definition fmul :: "platform \<Rightarrow> real \<Rightarrow> real \<Rightarrow> real" where
  "fmul P a b = fl P (a * b)"

definition fdiv :: "platform \<Rightarrow> real \<Rightarrow> real \<Rightarrow> real" where
  "fdiv P a b = fl P (a / b)"

definition fsum :: "platform \<Rightarrow> real list \<Rightarrow> real" where
  "fsum P values = fold (\<lambda>b a. fadd P a b) values 0"

text \<open>
  \<open>createDistribution\<close> (the same function in both analyzers).  A count is a whole
  number no greater than the length of the analyzed array, which is below \<open>2 ^ 32\<close>, so
  that counting and the total are exact; the percentage is a division and a
  multiplication of doubles.
\<close>

definition createDistribution ::
  "platform \<Rightarrow> ('l \<times> nat) list \<Rightarrow> 'l DistributionItem list" where
  "createDistribution P counts =
     (let total = sum_list (map snd counts) in
      sort_by (\<lambda>a b. int (DistributionItem.count b) - int (DistributionItem.count a) \<le> 0)
        (map (\<lambda>(l, c).
               \<lparr>DistributionItem.label = l, count = c,
                percentage =
                  (if total > 0 then fmul P (fdiv P (real c) (real total)) 100 else 0)\<rparr>)
             counts))"

text \<open>The inner loop of the three histogram builders: the first matching bucket is counted.\<close>

fun count_first :: "(HistogramBucket \<Rightarrow> bool) \<Rightarrow> HistogramBucket list \<Rightarrow> HistogramBucket list" where
  "count_first matches [] = []"
| "count_first matches (b # bs) =
     (if matches b then b\<lparr>HistogramBucket.count := HistogramBucket.count b + 1\<rparr> # bs
      else b # count_first matches bs)"

definition le_bound :: "real \<Rightarrow> enat \<Rightarrow> bool" where
  "le_bound x m = (case m of enat n \<Rightarrow> x \<le> real n | \<infinity> \<Rightarrow> True)"

definition less_bound :: "real \<Rightarrow> enat \<Rightarrow> bool" where
  "less_bound x m = (case m of enat n \<Rightarrow> x < real n | \<infinity> \<Rightarrow> True)"

definition bucket :: "nat \<Rightarrow> enat \<Rightarrow> string \<Rightarrow> HistogramBucket" where
  "bucket lo hi name = \<lparr>bmin = lo, bmax = hi, label = ustr name, count = 0\<rparr>"

text \<open>
  \<open>Math.round(x * 10) / 10\<close>; \<open>Math.round\<close> returns the nearest whole number, a half
  upwards, and that number is a double.
\<close>

definition round1 :: "platform \<Rightarrow> real \<Rightarrow> real" where
  "round1 P x = fdiv P (real_of_int \<lfloor>fmul P x 10 + 1 / 2\<rfloor>) 10"

definition median_of :: "platform \<Rightarrow> real list \<Rightarrow> real" where
  "median_of P values =
     (let sorted = sort values; n = length values in
      if n mod 2 = 0 then fdiv P (fadd P (sorted ! (n div 2 - 1)) (sorted ! (n div 2))) 2
      else sorted ! (n div 2))"

text \<open>\<open>calculateStats\<close> of \<open>encounterAnalytics.ts\<close>.\<close>

definition calculateStats :: "platform \<Rightarrow> real list \<Rightarrow> Stats" where
  "calculateStats P values =
     (if length values = 0 then \<lparr>mean = 0, median = 0, stat_min = 0, stat_max = 0\<rparr>
      else let sorted = sort values; avg = fdiv P (fsum P values) (real (length values)) in
        \<lparr>mean = round1 P avg, median = round1 P (median_of P values),
         stat_min = sorted ! 0, stat_max = sorted ! (length sorted - 1)\<rparr>)"

text \<open>\<open>calculateStats\<close> of \<open>patientAnalytics.ts\<close>, which adds the standard deviation.\<close>

definition calculateAgeStats :: "platform \<Rightarrow> real list \<Rightarrow> AgeStats" where
  "calculateAgeStats P values =
     (if length values = 0
      then \<lparr>mean = 0, median = 0, stat_min = 0, stat_max = 0, stdDev = 0\<rparr>
      else let sorted = sort values;
               avg = fdiv P (fsum P values) (real (length values));
               squaredDiffs = map (\<lambda>v. Math_pow P (fsub P v avg) 2) values;
               avgSquaredDiff = fdiv P (fsum P squaredDiffs) (real (length values))
           in \<lparr>mean = round1 P avg, median = round1 P (median_of P values),
               stat_min = sorted ! 0, stat_max = sorted ! (length sorted - 1),
               stdDev = round1 P (Math_sqrt P avgSquaredDiff)\<rparr>)"

text \<open>The date range of a list of time values, sorted by \<open>getTime\<close>.\<close>

definition date_range :: "platform \<Rightarrow> int list \<Rightarrow> DateRange" where
  "date_range P dates =
     (let sorted = sort dates in
      if length sorted > 0
      then \<lparr>range_min = Some (sorted ! 0), range_max = Some (sorted ! (length sorted - 1)),
            minFormatted = toLocaleDateString P (sorted ! 0),
            maxFormatted = toLocaleDateString P (sorted ! (length sorted - 1))\<rparr>
      else \<lparr>range_min = None, range_max = None,
            minFormatted = ustr ''N/A'', maxFormatted = ustr ''N/A''\<rparr>)"

text \<open>\<open>new Set(xs.map(x => x.id).filter(Boolean)).size\<close>.\<close>

definition unique_ids :: "ustring option list \<Rightarrow> nat" where
  "unique_ids ids = length (remdups (filter present ids))"

section \<open>The patient analyzer (\<open>patientAnalytics.ts\<close>)\<close>

definition US_CORE_RACE_URL :: ustring where
  "US_CORE_RACE_URL = ustr ''http://hl7.org/fhir/us/core/StructureDefinition/us-core-race''"

definition US_CORE_ETHNICITY_URL :: ustring where
  "US_CORE_ETHNICITY_URL = ustr ''http://hl7.org/fhir/us/core/StructureDefinition/us-core-ethnicity''"

definition OMB_CATEGORY_URL :: ustring where
  "OMB_CATEGORY_URL = ustr ''ombCategory''"

definition DETAILED_URL :: ustring where
  "DETAILED_URL = ustr ''detailed''"

definition TEXT_URL :: ustring where
  "TEXT_URL = ustr ''text''"

text \<open>
  \<open>calculateAge\<close>; \<open>now\<close> is what \<open>new Date()\<close> returns in this call.  An invalid death
  date makes every comparison false, so the result is \<open>null\<close>.
\<close>

definition calculateAge :: "platform \<Rightarrow> int \<Rightarrow> ustring option \<Rightarrow> ustring option \<Rightarrow> int option" where
  "calculateAge P now birthDate deceasedDateTime =
     (case birthDate of
        None \<Rightarrow> None
      | Some b \<Rightarrow>
          if b = [] then None
          else (case Date_parse P b of
                  None \<Rightarrow> None
                | Some birth \<Rightarrow>
                    (case (case deceasedDateTime of
                             None \<Rightarrow> Some now
                           | Some d \<Rightarrow> if d = [] then Some now else Date_parse P d) of
                       None \<Rightarrow> None
                     | Some endDate \<Rightarrow>
                         let age = getFullYear P endDate - getFullYear P birth;
                             monthDiff = getMonth P endDate - getMonth P birth;
                             age = (if monthDiff < 0
                                       \<or> (monthDiff = 0 \<and> getDate P endDate < getDate P birth)
                                    then age - 1 else age)
                         in if age \<ge> 0 then Some age else None)))"

text \<open>\<open>exts.find(e => e.url === url)\<close>.\<close>

definition find_url :: "ustring \<Rightarrow> FhirExtension list \<Rightarrow> FhirExtension option" where
  "find_url url exts = find (\<lambda>e. ext_url e = url) exts"

text \<open>\<open>e?.valueCoding?.display\<close> and \<open>e?.valueString\<close>, when truthy.\<close>

definition coding_display_of :: "FhirExtension option \<Rightarrow> ustring option" where
  "coding_display_of e =
     (case e of
        None \<Rightarrow> None
      | Some x \<Rightarrow> (case ext_valueCoding x of
                     None \<Rightarrow> None
                   | Some c \<Rightarrow> if present (coding_display c) then coding_display c else None))"

definition value_string_of :: "FhirExtension option \<Rightarrow> ustring option" where
  "value_string_of e =
     (case e of
        None \<Rightarrow> None
      | Some x \<Rightarrow> if present (ext_valueString x) then ext_valueString x else None)"

definition extractRace :: "FhirExtension list option \<Rightarrow> ustring option" where
  "extractRace extensions =
     (case extensions of
        None \<Rightarrow> None
      | Some exts \<Rightarrow>
          (case find_url US_CORE_RACE_URL exts of
             None \<Rightarrow> None
           | Some raceExt \<Rightarrow>
               (case ext_extension raceExt of
                  None \<Rightarrow> None
                | Some sub \<Rightarrow>
                    (case coding_display_of (find_url OMB_CATEGORY_URL sub) of
                       Some d \<Rightarrow> Some d
                     | None \<Rightarrow>
                         (case coding_display_of (find_url DETAILED_URL sub) of
                            Some d \<Rightarrow> Some d
                          | None \<Rightarrow> value_string_of (find_url TEXT_URL sub))))))"

definition extractEthnicity :: "FhirExtension list option \<Rightarrow> ustring option" where
  "extractEthnicity extensions =
     (case extensions of
        None \<Rightarrow> None
      | Some exts \<Rightarrow>
          (case find_url US_CORE_ETHNICITY_URL exts of
             None \<Rightarrow> None
           | Some ethExt \<Rightarrow>
               (case ext_extension ethExt of
                  None \<Rightarrow> None
                | Some sub \<Rightarrow>
                    (case coding_display_of (find_url OMB_CATEGORY_URL sub) of
                       Some d \<Rightarrow> Some d
                     | None \<Rightarrow> value_string_of (find_url TEXT_URL sub)))))"

definition age_buckets :: "HistogramBucket list" where
  "age_buckets =
     [bucket 0 9 ''0-9'', bucket 10 19 ''10-19'', bucket 20 29 ''20-29'',
      bucket 30 39 ''30-39'', bucket 40 49 ''40-49'', bucket 50 59 ''50-59'',
      bucket 60 69 ''60-69'', bucket 70 79 ''70-79'', bucket 80 89 ''80-89'',
      bucket 90 120 ''90+'']"

definition age_matches :: "int \<Rightarrow> HistogramBucket \<Rightarrow> bool" where
  "age_matches age b \<longleftrightarrow> real_of_int age \<ge> real (bmin b) \<and> le_bound (real_of_int age) (bmax b)"

definition createAgeHistogram :: "int list \<Rightarrow> HistogramBucket list" where
  "createAgeHistogram ages = fold (\<lambda>age. count_first (age_matches age)) ages age_buckets"

text \<open>The variables the loop of \<open>analyzePatients\<close> updates.\<close>

record patient_state =
  genderCounts :: "(ustring \<times> nat) list"
  raceCounts :: "(ustring \<times> nat) list"
  ethnicityCounts :: "(ustring \<times> nat) list"
  stateCounts :: "(ustring \<times> nat) list"
  cityCounts :: "(ustring \<times> nat) list"
  ages :: "int list"
  birthDates :: "int list"
  acc_livingCount :: nat
  acc_deceasedCount :: nat
  acc_missingBirthDate :: nat
  acc_missingGender :: nat
  acc_missingAddress :: nat

definition is_deceased :: "FhirPatient \<Rightarrow> bool" where
  "is_deceased patient \<longleftrightarrow>
     pat_deceasedBoolean patient = Some True \<or> present (pat_deceasedDateTime patient)"

text \<open>Counting an extracted value that may be absent: \<open>if (v) { ... counts.set(v, ...) }\<close>.\<close>

definition bump_opt :: "ustring option \<Rightarrow> (ustring \<times> nat) list \<Rightarrow> (ustring \<times> nat) list" where
  "bump_opt v counts = (case v of Some s \<Rightarrow> if s \<noteq> [] then bump s counts else counts | None \<Rightarrow> counts)"

text \<open>\<open>patient.address[0]\<close> when the address list is there and not empty.\<close>

definition primaryAddress :: "FhirPatient \<Rightarrow> FhirAddress option" where
  "primaryAddress patient =
     (case pat_address patient of None \<Rightarrow> None | Some [] \<Rightarrow> None | Some (a # _) \<Rightarrow> Some a)"

text \<open>One iteration of the loop; \<open>now\<close> is the clock as \<open>calculateAge\<close> reads it.\<close>

definition patient_step :: "platform \<Rightarrow> int \<Rightarrow> FhirPatient \<Rightarrow> patient_state \<Rightarrow> patient_state" where
  "patient_step P now patient st =
     st\<lparr>genderCounts := bump_opt (pat_gender patient) (genderCounts st),
        acc_missingGender :=
          (if present (pat_gender patient) then acc_missingGender st
           else acc_missingGender st + 1),
        ages :=
          (case calculateAge P now (pat_birthDate patient) (pat_deceasedDateTime patient) of
             Some age \<Rightarrow> ages st @ [age]
           | None \<Rightarrow> ages st),
        birthDates :=
          (case pat_birthDate patient of
             None \<Rightarrow> birthDates st
           | Some b \<Rightarrow>
               if b = [] then birthDates st
               else (case Date_parse P b of
                       Some t \<Rightarrow> birthDates st @ [t]
                     | None \<Rightarrow> birthDates st)),
        acc_missingBirthDate :=
          (if present (pat_birthDate patient) then acc_missingBirthDate st
           else acc_missingBirthDate st + 1),
        acc_deceasedCount :=
          (if is_deceased patient then acc_deceasedCount st + 1 else acc_deceasedCount st),
        acc_livingCount :=
          (if is_deceased patient then acc_livingCount st else acc_livingCount st + 1),
        raceCounts := bump_opt (extractRace (pat_extension patient)) (raceCounts st),
        ethnicityCounts := bump_opt (extractEthnicity (pat_extension patient)) (ethnicityCounts st),
        stateCounts :=
          (case primaryAddress patient of
             Some a \<Rightarrow> bump_opt (addr_state a) (stateCounts st)
           | None \<Rightarrow> stateCounts st),
        cityCounts :=
          (case primaryAddress patient of
             Some a \<Rightarrow> bump_opt (addr_city a) (cityCounts st)
           | None \<Rightarrow> cityCounts st),
        acc_missingAddress :=
          (case primaryAddress patient of
             Some a \<Rightarrow> acc_missingAddress st
           | None \<Rightarrow> acc_missingAddress st + 1)\<rparr>"

text \<open>The loop; \<open>clock i\<close> is the time during the iteration of index \<open>i\<close>.\<close>

fun patient_loop ::
  "platform \<Rightarrow> (nat \<Rightarrow> int) \<Rightarrow> nat \<Rightarrow> FhirPatient list \<Rightarrow> patient_state \<Rightarrow> patient_state" where
  "patient_loop P clock i [] st = st"
| "patient_loop P clock i (patient # rest) st =
     patient_loop P clock (i + 1) rest (patient_step P (clock i) patient st)"

definition patient_init :: patient_state where
  "patient_init =
     \<lparr>genderCounts = [], raceCounts = [], ethnicityCounts = [], stateCounts = [],
      cityCounts = [], ages = [], birthDates = [], acc_livingCount = 0, acc_deceasedCount = 0,
      acc_missingBirthDate = 0, acc_missingGender = 0, acc_missingAddress = 0\<rparr>"

definition analyzePatients :: "platform \<Rightarrow> (nat \<Rightarrow> int) \<Rightarrow> FhirPatient list \<Rightarrow> PatientAnalytics" where
  "analyzePatients P clock patients =
     (let st = patient_loop P clock 0 patients patient_init in
      \<lparr>totalPatients = length patients,
       uniqueIds = unique_ids (map pat_id patients),
       genderDistribution = createDistribution P (genderCounts st),
       ageDistribution = createAgeHistogram (ages st),
       ageStats = calculateAgeStats P (map real_of_int (ages st)),
       raceDistribution = createDistribution P (raceCounts st),
       ethnicityDistribution = createDistribution P (ethnicityCounts st),
       stateDistribution = take 15 (createDistribution P (stateCounts st)),
       cityDistribution = take 20 (createDistribution P (cityCounts st)),
       livingCount = acc_livingCount st,
       deceasedCount = acc_deceasedCount st,
       mortalityRate =
         (if length patients > 0
          then fmul P (fdiv P (real (acc_deceasedCount st)) (real (length patients))) 100
          else 0),
       birthDateRange = date_range P (birthDates st),
       missingBirthDate = acc_missingBirthDate st,
       missingGender = acc_missingGender st,
       missingAddress = acc_missingAddress st\<rparr>)"

section \<open>The encounter analyzer (\<open>encounterAnalytics.ts\<close>)\<close>

definition calculateLengthOfStay :: "platform \<Rightarrow> ustring option \<Rightarrow> ustring option \<Rightarrow> real option" where
  "calculateLengthOfStay P start end' =
     (if \<not> present start \<or> \<not> present end' then None
      else (case (Date_parse P (the start), Date_parse P (the end')) of
              (Some startDate, Some endDate) \<Rightarrow>
                let diffMs = fsub P (real_of_int endDate) (real_of_int startDate) in
                if diffMs < 0 then None else Some (fdiv P diffMs (1000 * 60 * 60))
            | _ \<Rightarrow> None))"

definition starts_with :: "ustring \<Rightarrow> ustring \<Rightarrow> bool" where
  "starts_with s prefix \<longleftrightarrow> take (length prefix) s = prefix"

definition extractPatientId :: "ustring option \<Rightarrow> ustring option" where
  "extractPatientId reference =
     (case reference of
        None \<Rightarrow> None
      | Some r \<Rightarrow>
          if r = [] then None
          else if starts_with r (ustr ''Patient/'') then Some (drop 8 r)
          else if starts_with r (ustr ''urn:uuid:'') then Some (drop 9 r)
          else Some r)"

text \<open>The own properties of the object literal \<open>codeMap\<close>.\<close>

definition codeMap :: "(ustring \<times> ustring) list" where
  "codeMap =
     [(ustr ''AMB'', ustr ''Ambulatory''),
      (ustr ''EMER'', ustr ''Emergency''),
      (ustr ''IMP'', ustr ''Inpatient''),
      (ustr ''ACUTE'', ustr ''Acute''),
      (ustr ''NONAC'', ustr ''Non-Acute''),
      (ustr ''OBSENC'', ustr ''Observation''),
      (ustr ''PRENC'', ustr ''Pre-Admission''),
      (ustr ''SS'', ustr ''Short Stay''),
      (ustr ''HH'', ustr ''Home Health''),
      (ustr ''VR'', ustr ''Virtual''),
      (ustr ''outpatient'', ustr ''Outpatient''),
      (ustr ''inpatient'', ustr ''Inpatient''),
      (ustr ''ambulatory'', ustr ''Ambulatory''),
      (ustr ''emergency'', ustr ''Emergency''),
      (ustr ''wellness'', ustr ''Wellness''),
      (ustr ''urgentcare'', ustr ''Urgent Care'')]"

text \<open>
  \<open>codeMap\<close> is an object literal, so its prototype is \<open>Object.prototype\<close>, and
  \<open>codeMap[code]\<close> also finds the members it inherits: these names, each bound to a
  function or an object (a truthy value).
\<close>

definition Object_prototype_members :: "ustring list" where
  "Object_prototype_members =
     [ustr ''constructor'', ustr ''__defineGetter__'', ustr ''__defineSetter__'',
      ustr ''hasOwnProperty'', ustr ''__lookupGetter__'', ustr ''__lookupSetter__'',
      ustr ''isPrototypeOf'', ustr ''propertyIsEnumerable'', ustr ''toString'',
      ustr ''valueOf'', ustr ''__proto__'', ustr ''toLocaleString'']"

text \<open>\<open>codeMap[code]\<close>; \<open>None\<close> is \<open>undefined\<close>.\<close>

definition codeMap_get :: "ustring \<Rightarrow> display option" where
  "codeMap_get code =
     (case map_of codeMap code of
        Some name \<Rightarrow> Some (Str name)
      | None \<Rightarrow> if code \<in> set Object_prototype_members then Some (Inherited code) else None)"

definition getClassDisplay :: "FhirEncounter \<Rightarrow> display" where
  "getClassDisplay enc =
     (case enc_class enc of
        None \<Rightarrow> Str (ustr ''Unknown'')
      | Some c \<Rightarrow>
          if present (coding_display c) then Str (the (coding_display c))
          else if present (coding_code c)
          then (case codeMap_get (the (coding_code c)) of
                  Some v \<Rightarrow> v
                | None \<Rightarrow> Str (the (coding_code c)))
          else Str (ustr ''Unknown''))"

definition getTypeDisplay :: "FhirEncounter \<Rightarrow> ustring" where
  "getTypeDisplay enc =
     (case enc_type enc of
        None \<Rightarrow> ustr ''Unspecified''
      | Some [] \<Rightarrow> ustr ''Unspecified''
      | Some (firstType # _) \<Rightarrow>
          if present (cc_text firstType) then the (cc_text firstType)
          else (case cc_coding firstType of
                  Some (c # _) \<Rightarrow>
                    if present (coding_display c) then the (coding_display c)
                    else if present (coding_code c) then the (coding_code c)
                    else ustr ''Unknown''
                | _ \<Rightarrow> ustr ''Unknown''))"

definition show_int :: "int \<Rightarrow> ustring" where
  "show_int i = (if i < 0 then ustr ''-'' @ show_nat (nat (- i)) else show_nat (nat i))"

text \<open>\<open>s.padStart(2, '0')\<close>.\<close>

definition padStart2 :: "ustring \<Rightarrow> ustring" where
  "padStart2 s = replicate (2 - length s) 0x30 @ s"

definition toMonthKey :: "platform \<Rightarrow> ustring \<Rightarrow> ustring option" where
  "toMonthKey P dateStr =
     (case Date_parse P dateStr of
        None \<Rightarrow> None
      | Some t \<Rightarrow>
          let year = getFullYear P t;
              month = padStart2 (show_int (getMonth P t + 1))
          in Some (show_int year @ ustr ''-'' @ month))"

definition los_buckets :: "HistogramBucket list" where
  "los_buckets =
     [bucket 0 1 ''<1 hour'', bucket 1 4 ''1-4 hours'', bucket 4 8 ''4-8 hours'',
      bucket 8 24 ''8-24 hours'', bucket 24 48 ''1-2 days'', bucket 48 72 ''2-3 days'',
      bucket 72 168 ''3-7 days'', bucket 168 336 ''1-2 weeks'', bucket 336 720 ''2-4 weeks'',
      bucket 720 \<infinity> ''>4 weeks'']"

definition los_matches :: "real \<Rightarrow> HistogramBucket \<Rightarrow> bool" where
  "los_matches los b \<longleftrightarrow> los \<ge> real (bmin b) \<and> less_bound los (bmax b)"

definition createLosHistogram :: "real list \<Rightarrow> HistogramBucket list" where
  "createLosHistogram losHours =
     filter (\<lambda>b. HistogramBucket.count b > 0)
       (fold (\<lambda>los. count_first (los_matches los)) losHours los_buckets)"

definition per_patient_buckets :: "HistogramBucket list" where
  "per_patient_buckets =
     [bucket 1 1 ''1'', bucket 2 5 ''2-5'', bucket 6 10 ''6-10'', bucket 11 20 ''11-20'',
      bucket 21 50 ''21-50'', bucket 51 100 ''51-100'', bucket 101 \<infinity> ''>100'']"

definition per_patient_matches :: "nat \<Rightarrow> HistogramBucket \<Rightarrow> bool" where
  "per_patient_matches n b \<longleftrightarrow> real n \<ge> real (bmin b) \<and> le_bound (real n) (bmax b)"

definition createEncountersPerPatientHistogram :: "nat list \<Rightarrow> HistogramBucket list" where
  "createEncountersPerPatientHistogram counts =
     filter (\<lambda>b. HistogramBucket.count b > 0)
       (fold (\<lambda>n. count_first (per_patient_matches n)) counts per_patient_buckets)"

text \<open>The variables the loop of \<open>analyzeEncounters\<close> updates.\<close>

record encounter_state =
  patientCounts :: "(ustring \<times> nat) list"
  classCounts :: "(display \<times> nat) list"
  typeCounts :: "(ustring \<times> nat) list"
  statusCounts :: "(ustring \<times> nat) list"
  monthCounts :: "(ustring \<times> nat) list"
  losHours :: "real list"
  periodDates :: "int list"
  acc_missingPeriodStart :: nat
  acc_missingPeriodEnd :: nat
  acc_missingClass :: nat
  acc_missingSubject :: nat

text \<open>\<open>encounter.period?.start\<close>, \<open>encounter.period?.end\<close>, \<open>encounter.subject?.reference\<close>.\<close>

definition periodStart :: "FhirEncounter \<Rightarrow> ustring option" where
  "periodStart encounter = (case enc_period encounter of None \<Rightarrow> None | Some p \<Rightarrow> period_start p)"

definition periodEnd :: "FhirEncounter \<Rightarrow> ustring option" where
  "periodEnd encounter = (case enc_period encounter of None \<Rightarrow> None | Some p \<Rightarrow> period_end p)"

definition subject_reference :: "FhirEncounter \<Rightarrow> ustring option" where
  "subject_reference encounter =
     (case enc_subject encounter of None \<Rightarrow> None | Some s \<Rightarrow> ref_reference s)"

definition encounter_step :: "platform \<Rightarrow> FhirEncounter \<Rightarrow> encounter_state \<Rightarrow> encounter_state" where
  "encounter_step P encounter st =
     st\<lparr>classCounts :=
          (case enc_class encounter of
             Some c \<Rightarrow> bump (getClassDisplay encounter) (classCounts st)
           | None \<Rightarrow> classCounts st),
        acc_missingClass :=
          (case enc_class encounter of
             Some c \<Rightarrow> acc_missingClass st
           | None \<Rightarrow> acc_missingClass st + 1),
        typeCounts := bump (getTypeDisplay encounter) (typeCounts st),
        statusCounts := bump_opt (enc_status encounter) (statusCounts st),
        acc_missingPeriodStart :=
          (if \<not> present (periodStart encounter) then acc_missingPeriodStart st + 1
           else acc_missingPeriodStart st),
        periodDates :=
          (if \<not> present (periodStart encounter) then periodDates st
           else (case Date_parse P (the (periodStart encounter)) of
                   Some t \<Rightarrow> periodDates st @ [t]
                 | None \<Rightarrow> periodDates st)),
        monthCounts :=
          (if \<not> present (periodStart encounter) then monthCounts st
           else (case Date_parse P (the (periodStart encounter)) of
                   Some t \<Rightarrow> bump_opt (toMonthKey P (the (periodStart encounter))) (monthCounts st)
                 | None \<Rightarrow> monthCounts st)),
        acc_missingPeriodEnd :=
          (if \<not> present (periodEnd encounter) then acc_missingPeriodEnd st + 1
           else acc_missingPeriodEnd st),
        losHours :=
          (case calculateLengthOfStay P (periodStart encounter) (periodEnd encounter) of
             Some los \<Rightarrow> losHours st @ [los]
           | None \<Rightarrow> losHours st),
        patientCounts :=
          bump_opt (extractPatientId (subject_reference encounter)) (patientCounts st),
        acc_missingSubject :=
          (if present (extractPatientId (subject_reference encounter)) then acc_missingSubject st
           else acc_missingSubject st + 1)\<rparr>"

definition encounter_init :: encounter_state where
  "encounter_init =
     \<lparr>patientCounts = [], classCounts = [], typeCounts = [], statusCounts = [],
      monthCounts = [], losHours = [], periodDates = [], acc_missingPeriodStart = 0,
      acc_missingPeriodEnd = 0, acc_missingClass = 0, acc_missingSubject = 0\<rparr>"

definition losStats_of :: "platform \<Rightarrow> real list \<Rightarrow> LosStats" where
  "losStats_of P hours =
     (let s = calculateStats P (map (\<lambda>h. fdiv P h 24) hours) in
      \<lparr>mean = mean s, median = median s, stat_min = stat_min s, stat_max = stat_max s,
       encountersWithLos = length hours\<rparr>)"

definition time_series :: "platform \<Rightarrow> (ustring \<times> nat) list \<Rightarrow> TimeSeriesPoint list" where
  "time_series P months =
     map (\<lambda>(d, c).
           \<lparr>date = d, count = c,
            label = toLocaleMonthYear P (Date_parse P (d @ ustr ''-01''))\<rparr>)
         (sort_by (\<lambda>a b. localeCompare P (fst a) (fst b) \<le> 0) months)"

definition analyzeEncounters :: "platform \<Rightarrow> FhirEncounter list \<Rightarrow> EncounterAnalytics" where
  "analyzeEncounters P encounters =
     (let st = fold (encounter_step P) encounters encounter_init;
          encountersPerPatientValues = map snd (patientCounts st)
      in
      \<lparr>totalEncounters = length encounters,
       uniqueEncounterIds = unique_ids (map enc_id encounters),
       uniquePatientRefs = length (patientCounts st),
       classDistribution = createDistribution P (classCounts st),
       typeDistribution = take 15 (createDistribution P (typeCounts st)),
       statusDistribution = createDistribution P (statusCounts st),
       encountersByMonth = time_series P (monthCounts st),
       periodCoverage = date_range P (periodDates st),
       losDistribution = createLosHistogram (losHours st),
       losStats = losStats_of P (losHours st),
       encountersPerPatient = createEncountersPerPatientHistogram encountersPerPatientValues,
       encountersPerPatientStats = calculateStats P (map real encountersPerPatientValues),
       missingPeriodStart = acc_missingPeriodStart st,
       missingPeriodEnd = acc_missingPeriodEnd st,
       missingClass = acc_missingClass st,
       missingSubject = acc_missingSubject st\<rparr>)"

section \<open>The pipeline of \<open>App.tsx\<close>\<close>



section \<open>Notions the properties are stated with\<close>

text \<open>The sum of the \<open>percentage\<close> fields of a distribution.\<close>

definition percentage_sum :: "'l DistributionItem list \<Rightarrow> real" where
  "percentage_sum items = sum_list (map percentage items)"

text \<open>
  The values a loop counts for an optional field: those that are present and not empty,
  in the order of the records.
\<close>

definition counted :: "('a \<Rightarrow> ustring option) \<Rightarrow> 'a list \<Rightarrow> ustring list" where
  "counted f xs =
     concat (map (\<lambda>x. case f x of Some s \<Rightarrow> if s \<noteq> [] then [s] else [] | None \<Rightarrow> []) xs)"

text \<open>The state and the city of the first address, as the loop reads them.\<close>

definition state_of :: "FhirPatient \<Rightarrow> ustring option" where
  "state_of p = (case primaryAddress p of Some a \<Rightarrow> addr_state a | None \<Rightarrow> None)"

definition city_of :: "FhirPatient \<Rightarrow> ustring option" where
  "city_of p = (case primaryAddress p of Some a \<Rightarrow> addr_city a | None \<Rightarrow> None)"

text \<open>
  What the properties of percentages take from IEEE 754 rounding to nearest: zero is a
  double, the rounding of a non-negative number is non-negative, and in the range of the
  normal doubles, from \<open>2 ^ -1022\<close> to \<open>2 ^ 1023\<close>, the relative error is at most
  \<open>2 ^ -53\<close>.
\<close>

definition ieee_rounding :: "platform \<Rightarrow> bool" where
  "ieee_rounding P \<longleftrightarrow>
     fl P 0 = 0
     \<and> (\<forall>x. 0 \<le> x \<longrightarrow> 0 \<le> fl P x)
     \<and> (\<forall>x. 1 / 2 ^ 1022 \<le> \<bar>x\<bar> \<and> \<bar>x\<bar> \<le> 2 ^ 1023 \<longrightarrow> \<bar>fl P x - x\<bar> \<le> \<bar>x\<bar> / 2 ^ 53)"

text \<open>Every count stored in a counting map is positive.\<close>

definition positive_counts :: "('k \<times> nat) list \<Rightarrow> bool" where
  "positive_counts m \<longleftrightarrow> list_all (\<lambda>x. 0 < snd x) m"

text \<open>
  The sum of the \<open>percentage\<close> fields as JavaScript computes it, adding the doubles
  from the left.
\<close>

definition added_percentages :: "platform \<Rightarrow> 'l DistributionItem list \<Rightarrow> real" where
  "added_percentages P items = fsum P (map percentage items)"

text \<open>
  Both sums of the percentages are within 0.01 of 100.  A distribution is closed when it
  is empty or within this tolerance; a capped one sums to at most 100.01, and is within
  the tolerance when no more labels were counted than the cap keeps.
\<close>

definition within_tolerance :: "platform \<Rightarrow> 'l DistributionItem list \<Rightarrow> bool" where
  "within_tolerance P ds \<longleftrightarrow>
     \<bar>percentage_sum ds - 100\<bar> \<le> 1 / 100 \<and> \<bar>added_percentages P ds - 100\<bar> \<le> 1 / 100"

definition closed_distribution :: "platform \<Rightarrow> 'l DistributionItem list \<Rightarrow> bool" where
  "closed_distribution P ds \<longleftrightarrow> (ds \<noteq> [] \<longrightarrow> within_tolerance P ds)"

definition capped_distribution ::
  "platform \<Rightarrow> nat \<Rightarrow> nat \<Rightarrow> 'l DistributionItem list \<Rightarrow> bool" where
  "capped_distribution P cap labels ds \<longleftrightarrow>
     (ds \<noteq> [] \<longrightarrow>
        percentage_sum ds \<le> 100 + 1 / 100 \<and> added_percentages P ds \<le> 100 + 1 / 100
        \<and> (labels \<le> cap \<longrightarrow> within_tolerance P ds))"

text \<open>
  A record has a valid start when \<open>period.start\<close> is a non-empty string that \<open>Date\<close>
  parses; \<open>month_keys\<close> lists the month keys of those records, in their order.
\<close>

definition valid_start :: "platform \<Rightarrow> FhirEncounter \<Rightarrow> bool" where
  "valid_start P e \<longleftrightarrow>
     (case periodStart e of None \<Rightarrow> False | Some s \<Rightarrow> s \<noteq> [] \<and> Date_parse P s \<noteq> None)"

definition month_of :: "platform \<Rightarrow> FhirEncounter \<Rightarrow> ustring" where
  "month_of P e =
     (case periodStart e of
        None \<Rightarrow> []
      | Some s \<Rightarrow> (case toMonthKey P s of Some k \<Rightarrow> k | None \<Rightarrow> []))"

definition month_keys :: "platform \<Rightarrow> FhirEncounter list \<Rightarrow> ustring list" where
  "month_keys P es = map (month_of P) (filter (valid_start P) es)"

text \<open>\<open>a.localeCompare(b) <= 0\<close> is transitive and total.\<close>

definition consistent_comparator :: "platform \<Rightarrow> bool" where
  "consistent_comparator P \<longleftrightarrow>
     (\<forall>a b c. localeCompare P a b \<le> 0 \<and> localeCompare P b c \<le> 0 \<longrightarrow> localeCompare P a c \<le> 0)
     \<and> (\<forall>a b. localeCompare P a b \<le> 0 \<or> localeCompare P b a \<le> 0)"

text \<open>The key the loop counts for a record, if any.\<close>

definition month_key_of :: "platform \<Rightarrow> FhirEncounter \<Rightarrow> ustring option" where
  "month_key_of P e =
     (case periodStart e of None \<Rightarrow> None | Some s \<Rightarrow> if s = [] then None else toMonthKey P s)"


text \<open>The sum of the counts of a histogram.\<close>

definition bucket_total :: "HistogramBucket list \<Rightarrow> nat" where
  "bucket_total bs = sum_list (map HistogramBucket.count bs)"

text \<open>
  The ages \<open>calculateAge\<close> defines, in the order of the patients, and the lengths of stay
  \<open>calculateLengthOfStay\<close> defines, in the order of the encounters.
\<close>

fun defined_ages :: "platform \<Rightarrow> (nat \<Rightarrow> int) \<Rightarrow> nat \<Rightarrow> FhirPatient list \<Rightarrow> int list" where
  "defined_ages P clock i [] = []"
| "defined_ages P clock i (p # ps) =
     (case calculateAge P (clock i) (pat_birthDate p) (pat_deceasedDateTime p) of
        Some age \<Rightarrow> [age]
      | None \<Rightarrow> [])
     @ defined_ages P clock (i + 1) ps"

definition defined_stays :: "platform \<Rightarrow> FhirEncounter list \<Rightarrow> real list" where
  "defined_stays P es =
     concat (map (\<lambda>e. case calculateLengthOfStay P (periodStart e) (periodEnd e) of
                         Some los \<Rightarrow> [los] | None \<Rightarrow> []) es)"

section \<open>A concrete platform and inputs for the examples\<close>

definition demo_JSON_parse :: "ustring \<Rightarrow> ustring + jsval" where
  "demo_JSON_parse line =
     (if line = ustr ''{\"resourceType\":\"Patient\"}''
      then Inr (JObj [(ustr ''resourceType'', JStr (ustr ''Patient''))])
      else if line = ustr ''{\"resourceType\":\"Encounter\"}''
      then Inr (JObj [(ustr ''resourceType'', JStr (ustr ''Encounter''))])
      else if line = ustr ''{\"resourceType\":\"Patient\",\"birthDate\":\"2000-06-15\"}''
      then Inr (JObj [(ustr ''resourceType'', JStr (ustr ''Patient'')),
                      (ustr ''birthDate'', JStr (ustr ''2000-06-15''))])
      else if line = ustr ''{}'' then Inr (JObj [])
      else Inl (ustr ''Unexpected token x in JSON at position 0''))"

text \<open>
  The calendar date of a day number (days since 1970-01-01), in the proleptic
  Gregorian calendar: the getters of a platform whose local time zone is UTC.
\<close>

definition civil_from_days :: "int \<Rightarrow> int \<times> int \<times> int" where
  "civil_from_days days =
     (let z = days + 719468;
          era = z div 146097;
          doe = z - era * 146097;
          yoe = (doe - doe div 1460 + doe div 36524 - doe div 146096) div 365;
          y = yoe + era * 400;
          doy = doe - (365 * yoe + yoe div 4 - yoe div 100);
          mp = (5 * doy + 2) div 153;
          d = doy - (153 * mp + 2) div 5 + 1;
          m = (if mp < 10 then mp + 3 else mp - 9)
      in (if m \<le> 2 then y + 1 else y, m, d))"

definition demo_getFullYear :: "int \<Rightarrow> int" where
  "demo_getFullYear t = fst (civil_from_days (t div 86400000))"

definition demo_getMonth :: "int \<Rightarrow> int" where
  "demo_getMonth t = fst (snd (civil_from_days (t div 86400000))) - 1"

definition demo_getDate :: "int \<Rightarrow> int" where
  "demo_getDate t = snd (snd (civil_from_days (t div 86400000)))"

text \<open>\<open>new Date(s).getTime()\<close> on the date strings of the examples; any other string
  counts as an invalid date.\<close>

definition demo_Date_parse :: "ustring \<Rightarrow> int option" where
  "demo_Date_parse s =
     (if s = ustr ''1900-01-01'' then Some (- 2208988800000)
      else if s = ustr ''2000-06-15'' then Some 961027200000
      else if s = ustr ''2023-12-31T10:00:00Z'' then Some 1704016800000
      else if s = ustr ''2023-12-01'' then Some 1701388800000
      else if s = ustr ''2024-01-15T09:00:00Z'' then Some 1705309200000
      else if s = ustr ''2024-01-15T09:30:00Z'' then Some 1705311000000
      else if s = ustr ''2024-01-01'' then Some 1704067200000
      else None)"

definition month_names :: "ustring list" where
  "month_names =
     [ustr ''Jan'', ustr ''Feb'', ustr ''Mar'', ustr ''Apr'', ustr ''May'', ustr ''Jun'',
      ustr ''Jul'', ustr ''Aug'', ustr ''Sep'', ustr ''Oct'', ustr ''Nov'', ustr ''Dec'']"

definition demo_toLocaleDateString :: "int \<Rightarrow> ustring" where
  "demo_toLocaleDateString t =
     show_int (demo_getMonth t + 1) @ ustr ''/'' @ show_int (demo_getDate t)
     @ ustr ''/'' @ show_int (demo_getFullYear t)"

definition demo_toLocaleMonthYear :: "int option \<Rightarrow> ustring" where
  "demo_toLocaleMonthYear d =
     (case d of
        None \<Rightarrow> ustr ''Invalid Date''
      | Some t \<Rightarrow> month_names ! nat (demo_getMonth t) @ ustr '' '' @ show_int (demo_getFullYear t))"

text \<open>Strings compared code unit by code unit.\<close>

fun demo_localeCompare :: "ustring \<Rightarrow> ustring \<Rightarrow> int" where
  "demo_localeCompare [] [] = 0"
| "demo_localeCompare [] (b # bs) = - 1"
| "demo_localeCompare (a # as) [] = 1"
| "demo_localeCompare (a # as) (b # bs) =
     (if a < b then - 1 else if b < a then 1 else demo_localeCompare as bs)"

text \<open>\<open>Math.sqrt\<close> on the squares the examples take the root of.\<close>

definition demo_sqrt :: "real \<Rightarrow> real" where
  "demo_sqrt x = (if x = 0 then 0 else if x = 1 then 1 else if x = 4 then 2 else x)"

text \<open>\<open>Math.pow\<close> at the whole exponents of the examples.\<close>

definition demo_pow :: "real \<Rightarrow> real \<Rightarrow> real" where
  "demo_pow x y = x ^ nat \<lfloor>y\<rfloor>"

text \<open>
  Rounding on the numbers the examples compute: whole numbers and their quotients by a
  power of two, which are doubles and are returned unchanged.
\<close>

definition demo_fl :: "real \<Rightarrow> real" where
  "demo_fl x = x"




definition demo_platform :: platform where
  "demo_platform =
     \<lparr>JSON_parse = demo_JSON_parse,
      ToString = (\<lambda>_. ustr ''[object Object]''),
      Date_parse = demo_Date_parse,
      getFullYear = demo_getFullYear, getMonth = demo_getMonth, getDate = demo_getDate,
      toLocaleDateString = demo_toLocaleDateString,
      toLocaleMonthYear = demo_toLocaleMonthYear,
      localeCompare = demo_localeCompare,
      Math_sqrt = demo_sqrt,
      Math_pow = demo_pow,
      fl = demo_fl\<rparr>"




text \<open>Records with every optional field absent, to build the examples from.\<close>

definition empty_patient :: FhirPatient where
  "empty_patient =
     \<lparr>pat_id = None, pat_gender = None, pat_birthDate = None, pat_deceasedBoolean = None,
      pat_deceasedDateTime = None, pat_address = None, pat_extension = None\<rparr>"

definition empty_encounter :: FhirEncounter where
  "empty_encounter =
     \<lparr>enc_id = None, enc_status = None, enc_class = None, enc_type = None,
      enc_subject = None, enc_period = None\<rparr>"

definition patient_in_state :: "ustring \<Rightarrow> FhirPatient" where
  "patient_in_state s =
     empty_patient\<lparr>pat_address := Some [\<lparr>addr_city = None, addr_state = Some s\<rparr>]\<rparr>"

definition patient_born :: "string \<Rightarrow> FhirPatient" where
  "patient_born d = empty_patient\<lparr>pat_birthDate := Some (ustr d)\<rparr>"

definition encounter_with_code :: "string \<Rightarrow> FhirEncounter" where
  "encounter_with_code c =
     empty_encounter\<lparr>enc_class := Some \<lparr>coding_code = Some (ustr c), coding_display = None\<rparr>\<rparr>"

definition encounter_starting :: "string \<Rightarrow> FhirEncounter" where
  "encounter_starting s =
     empty_encounter\<lparr>enc_period := Some \<lparr>period_start = Some (ustr s), period_end = None\<rparr>\<rparr>"

definition sixteen_states :: "ustring list" where
  "sixteen_states =
     [ustr ''AL'', ustr ''AK'', ustr ''AZ'', ustr ''AR'', ustr ''CA'', ustr ''CO'', ustr ''CT'',
      ustr ''DE'', ustr ''FL'', ustr ''GA'', ustr ''HI'', ustr ''ID'', ustr ''IL'', ustr ''IN'',
      ustr ''IA'', ustr ''KS'']"

definition two_patients :: "FhirPatient list" where
  "two_patients =
     [empty_patient\<lparr>pat_gender := Some (ustr ''female''),
        pat_address := Some [\<lparr>addr_city = Some (ustr ''Boston''), addr_state = Some (ustr ''MA'')\<rparr>]\<rparr>,
      empty_patient\<lparr>pat_gender := Some (ustr ''male''), pat_deceasedBoolean := Some True\<rparr>]"

definition three_encounters :: "FhirEncounter list" where
  "three_encounters =
     [encounter_starting ''2024-01-15T09:00:00Z'', encounter_starting ''2023-12-31T10:00:00Z'',
      empty_encounter]"

section \<open>Properties of the parser\<close>



















lemma parse_loop_append:
  "parse_loop P i (xs @ ys) st = parse_loop P (i + length xs) ys (parse_loop P i xs st)"
  by (induction xs arbitrary: i st) simp_all






























lemma show_nat_digit: "n < 10 \<Longrightarrow> show_nat n = [digit_char n]"
  by (simp add: show_nat.simps)

lemma show_nat_more: "10 \<le> n \<Longrightarrow> show_nat n = show_nat (n div 10) @ [digit_char (n mod 10)]"
  by (subst show_nat.simps) simp





section \<open>Properties of the analyzers\<close>

lemma patient_step_living:
  "acc_livingCount (patient_step P now p st) = acc_livingCount st + (if is_deceased p then 0 else 1)"
  "acc_deceasedCount (patient_step P now p st) = acc_deceasedCount st + (if is_deceased p then 1 else 0)"
  by (simp_all add: patient_step_def)

lemma patient_loop_living:
  "acc_livingCount (patient_loop P clock i ps st)
     = acc_livingCount st + length (filter (\<lambda>p. \<not> is_deceased p) ps)"
  by (induction ps arbitrary: i st) (simp_all add: patient_step_living)

lemma patient_loop_deceased:
  "acc_deceasedCount (patient_loop P clock i ps st)
     = acc_deceasedCount st + length (filter is_deceased ps)"
  by (induction ps arbitrary: i st) (simp_all add: patient_step_living)

text \<open>
  Claim C10.  \<open>livingCount + deceasedCount = totalPatients\<close>: every record is counted
  once, as deceased when \<open>deceasedBoolean\<close> is true or \<open>deceasedDateTime\<close> is a non-empty
  string, and as living otherwise.
\<close>

theorem analyzePatients_mortality_partition:
  "livingCount (analyzePatients P clock patients) + deceasedCount (analyzePatients P clock patients)
     = totalPatients (analyzePatients P clock patients)
   \<and> totalPatients (analyzePatients P clock patients) = length patients
   \<and> deceasedCount (analyzePatients P clock patients) = length (filter is_deceased patients)
   \<and> livingCount (analyzePatients P clock patients)
       = length (filter (\<lambda>p. \<not> is_deceased p) patients)"
  using sum_length_filter_compl [of is_deceased patients]
  by (simp add: analyzePatients_def Let_def patient_loop_living patient_loop_deceased patient_init_def)

subsection \<open>Sorting with a comparator\<close>

lemma sum_list_insert_by:
  "sum_list (map f (insert_by le x xs)) = f x + sum_list (map f xs)"
  for f :: "'a \<Rightarrow> 'b::comm_monoid_add"
  by (induction xs) (simp_all add: add.left_commute)

lemma sum_list_sort_by:
  "sum_list (map f (sort_by le xs)) = sum_list (map f xs)"
  for f :: "'a \<Rightarrow> 'b::comm_monoid_add"
  by (induction xs) (simp_all add: sort_by_def sum_list_insert_by)

lemma length_insert_by: "length (insert_by le x xs) = Suc (length xs)"
  by (induction xs) simp_all

lemma length_sort_by: "length (sort_by le xs) = length xs"
  by (induction xs) (simp_all add: sort_by_def length_insert_by)

lemma set_insert_by: "set (insert_by le x xs) = insert x (set xs)"
  by (induction xs) auto

lemma set_sort_by: "set (sort_by le xs) = set xs"
  by (induction xs) (simp_all add: sort_by_def set_insert_by)

subsection \<open>Counting maps\<close>

lemma bump_positive: "positive_counts m \<Longrightarrow> positive_counts (bump k m)"
  by (induction m) (auto simp: positive_counts_def)

lemma bump_opt_positive: "positive_counts m \<Longrightarrow> positive_counts (bump_opt v m)"
  by (simp add: bump_opt_def bump_positive split: option.splits)

lemma bump_opt_fold:
  "bump_opt v m = fold bump (case v of Some s \<Rightarrow> if s \<noteq> [] then [s] else [] | None \<Rightarrow> []) m"
  by (simp add: bump_opt_def split: option.splits)

lemma fold_bump_positive: "positive_counts m \<Longrightarrow> positive_counts (fold bump ks m)"
  by (induction ks arbitrary: m) (simp_all add: bump_positive)

lemma positive_total:
  "positive_counts m \<Longrightarrow> m \<noteq> [] \<Longrightarrow> 0 < sum_list (map snd m)"
  by (cases m) (auto simp: positive_counts_def)

lemma keys_bump: "fst ` set (bump k m) = insert k (fst ` set m)"
proof (induction m)
  case Nil
  then show ?case by simp
next
  case (Cons x m)
  obtain a n where x: "x = (a, n)" by (cases x)
  show ?case using Cons.IH by (auto simp: x)
qed

lemma distinct_bump: "distinct (map fst m) \<Longrightarrow> distinct (map fst (bump k m))"
proof (induction m)
  case Nil
  then show ?case by simp
next
  case (Cons x m)
  obtain a n where x: "x = (a, n)" by (cases x)
  show ?case
  proof (cases "k = a")
    case True
    then show ?thesis using Cons.prems x by simp
  next
    case False
    have "a \<notin> fst ` set (bump k m)"
      using Cons.prems False x by (simp add: keys_bump)
    then show ?thesis using Cons x False by simp
  qed
qed

lemma keys_fold_bump: "fst ` set (fold bump ks m) = set ks \<union> fst ` set m"
  by (induction ks arbitrary: m) (auto simp: keys_bump)

lemma distinct_fold_bump: "distinct (map fst m) \<Longrightarrow> distinct (map fst (fold bump ks m))"
  by (induction ks arbitrary: m) (simp_all add: distinct_bump)

lemma length_fold_bump: "length (fold bump ks []) = length (remdups ks)"
proof -
  have d: "distinct (map fst (fold bump ks []))"
    by (rule distinct_fold_bump) simp
  have "length (fold bump ks []) = length (map fst (fold bump ks []))" by simp
  also have "\<dots> = card (set (map fst (fold bump ks [])))"
    using d by (rule distinct_card [symmetric])
  also have "set (map fst (fold bump ks [])) = set ks"
    using keys_fold_bump [of ks "[]"] by simp
  also have "card (set ks) = length (remdups ks)" by (simp add: length_remdups_card_conv)
  finally show ?thesis .
qed

subsection \<open>Rounding\<close>

lemma fl_bounds:
  assumes "ieee_rounding P" and "1 / 2 ^ 1022 \<le> x" and "x \<le> 2 ^ 1023"
  shows "x * (1 - 1 / 2 ^ 53) \<le> fl P x" and "fl P x \<le> x * (1 + 1 / 2 ^ 53)"
proof -
  have pos: "0 < x"
  proof -
    have "(0::real) < 1 / 2 ^ 1022" by simp
    then show ?thesis using assms(2) by linarith
  qed
  then have ax: "\<bar>x\<bar> = x" by simp
  have range: "1 / 2 ^ 1022 \<le> \<bar>x\<bar> \<and> \<bar>x\<bar> \<le> 2 ^ 1023"
    unfolding ax using assms(2,3) by (rule conjI)
  have "\<forall>x. 1 / 2 ^ 1022 \<le> \<bar>x\<bar> \<and> \<bar>x\<bar> \<le> 2 ^ 1023 \<longrightarrow> \<bar>fl P x - x\<bar> \<le> \<bar>x\<bar> / 2 ^ 53"
    using assms(1) unfolding ieee_rounding_def by (elim conjE)
  then have "\<bar>fl P x - x\<bar> \<le> \<bar>x\<bar> / 2 ^ 53"
    using range by blast
  then have "\<bar>fl P x - x\<bar> \<le> x / 2 ^ 53"
    unfolding ax .
  then have "fl P x - x \<le> x / 2 ^ 53" and "- (x / 2 ^ 53) \<le> fl P x - x"
    by linarith+
  then show "x * (1 - 1 / 2 ^ 53) \<le> fl P x" and "fl P x \<le> x * (1 + 1 / 2 ^ 53)"
    by (simp_all add: algebra_simps)
qed

lemma percentage_bounds:
  assumes r: "ieee_rounding P" and c: "0 < c" and ct: "c \<le> t" and t: "t < 2 ^ 32"
  shows "real c / real t * 100 * (1 - 1 / 2 ^ 53)\<^sup>2 \<le> fmul P (fdiv P (real c) (real t)) 100"
    and "fmul P (fdiv P (real c) (real t)) 100 \<le> real c / real t * 100 * (1 + 1 / 2 ^ 53)\<^sup>2"
proof -
  define q where "q = real c / real t"
  define lo :: real where "lo = 1 - 1 / 2 ^ 53"
  define hi :: real where "hi = 1 + 1 / 2 ^ 53"
  have lo: "1 / 2 \<le> lo" "0 \<le> lo" and hi: "hi \<le> 2" "0 \<le> hi"
    by (simp_all add: lo_def hi_def)
  have tpos: "0 < real t" using c ct by simp
  have "real t \<le> 2 ^ 32" using t by (metis less_imp_le of_nat_le_iff of_nat_numeral of_nat_power)
  then have "1 / 2 ^ 32 \<le> 1 / real t" using tpos by (simp add: field_simps)
  also have "1 / real t \<le> q"
    unfolding q_def using c tpos by (simp add: field_simps)
  finally have qlo: "1 / 2 ^ 32 \<le> q" .
  have qhi: "q \<le> 1" unfolding q_def using ct tpos by (simp add: field_simps)
  have small: "(1::real) / 2 ^ 1022 \<le> 1 / 2 ^ 34"
    by (intro divide_left_mono power_increasing) simp_all
  have "(1::real) / 2 ^ 34 \<le> 1 / 2 ^ 32" by simp
  then have q1: "1 / 2 ^ 1022 \<le> q" using small qlo by linarith
  have big: "(2::real) ^ 8 \<le> 2 ^ 1023" by (intro power_increasing) simp_all
  then have q2: "q \<le> 2 ^ 1023" using qhi by simp
  have f1: "q * lo \<le> fl P q" and f2: "fl P q \<le> q * hi"
    unfolding lo_def hi_def using fl_bounds [OF r q1 q2] by simp_all
  define y where "y = fl P q * 100"
  have ylo: "q * 100 * lo \<le> y" and yhi: "y \<le> q * 100 * hi"
    unfolding y_def using f1 f2 by simp_all
  have "1 / 2 ^ 32 * 100 * (1 / 2) \<le> q * 100 * lo"
    using qlo lo by (intro mult_mono) simp_all
  moreover have "(1::real) / 2 ^ 34 \<le> 1 / 2 ^ 32 * 100 * (1 / 2)" by simp
  ultimately have "1 / 2 ^ 34 \<le> y" using ylo by linarith
  then have y1: "1 / 2 ^ 1022 \<le> y" using small by linarith
  have "q * 100 * hi \<le> 1 * 100 * 2"
    using qhi hi qlo by (intro mult_mono) simp_all
  moreover have "(1::real) * 100 * 2 \<le> 2 ^ 8" by simp
  ultimately have "y \<le> 2 ^ 8" using yhi by linarith
  then have y2: "y \<le> 2 ^ 1023" using big by linarith
  have g1: "y * lo \<le> fl P y" and g2: "fl P y \<le> y * hi"
    unfolding lo_def hi_def using fl_bounds [OF r y1 y2] by simp_all
  have "q * 100 * lo * lo \<le> y * lo" using ylo lo by (intro mult_right_mono) simp_all
  then have a: "q * 100 * lo\<^sup>2 \<le> fl P y" using g1 by (simp add: power2_eq_square)
  have "y * hi \<le> q * 100 * hi * hi" using yhi hi by (intro mult_right_mono) simp_all
  then have b: "fl P y \<le> q * 100 * hi\<^sup>2" using g2 by (simp add: power2_eq_square)
  show "real c / real t * 100 * (1 - 1 / 2 ^ 53)\<^sup>2 \<le> fmul P (fdiv P (real c) (real t)) 100"
    using a by (simp add: fmul_def fdiv_def y_def q_def lo_def)
  show "fmul P (fdiv P (real c) (real t)) 100 \<le> real c / real t * 100 * (1 + 1 / 2 ^ 53)\<^sup>2"
    using b by (simp add: fmul_def fdiv_def y_def q_def hi_def)
qed

lemma rounding_tolerance:
  "(100::real) - 1 / 100 \<le> 100 * (1 - 1 / 2 ^ 53)\<^sup>2"
  "100 * (1 + 1 / 2 ^ 53)\<^sup>2 \<le> (100::real) + 1 / 100"
  by (simp_all add: power2_eq_square)

subsection \<open>\<open>createDistribution\<close>\<close>

lemma percentage_total:
  "sum_list (map (\<lambda>(l, c). real c / t * 100 * k) m) = real (sum_list (map snd m)) / t * 100 * k"
  by (induction m) (auto simp: add_divide_distrib distrib_right)

lemma length_createDistribution: "length (createDistribution P m) = length m"
  by (simp add: createDistribution_def Let_def length_sort_by)

lemma createDistribution_Nil: "createDistribution P m = [] \<longleftrightarrow> m = []"
  using length_createDistribution [of P m] by (metis length_0_conv)

lemma percentage_sum_createDistribution:
  assumes "0 < sum_list (map snd m)"
  shows "percentage_sum (createDistribution P m)
         = sum_list (map (\<lambda>(l, c). fmul P (fdiv P (real c) (real (sum_list (map snd m)))) 100) m)"
  using assms
  by (simp add: percentage_sum_def createDistribution_def Let_def sum_list_sort_by
                comp_def case_prod_unfold)

lemma count_le_total:
  fixes m :: "('l \<times> nat) list"
  assumes "(l, c) \<in> set m"
  shows "c \<le> sum_list (map snd m)"
proof -
  have "c \<in> set (map snd m)" using assms by force
  then show ?thesis by (simp add: member_le_sum_list)
qed

lemma createDistribution_sum:
  assumes r: "ieee_rounding P" and p: "positive_counts m" and ne: "m \<noteq> []"
    and t: "sum_list (map snd m) < 2 ^ 32"
  shows "100 * (1 - 1 / 2 ^ 53)\<^sup>2 \<le> percentage_sum (createDistribution P m)"
    and "percentage_sum (createDistribution P m) \<le> 100 * (1 + 1 / 2 ^ 53)\<^sup>2"
proof -
  define T where "T = sum_list (map snd m)"
  have pos: "0 < T" unfolding T_def using p ne by (rule positive_total)
  have s: "percentage_sum (createDistribution P m)
           = sum_list (map (\<lambda>(l, c). fmul P (fdiv P (real c) (real T)) 100) m)"
    unfolding T_def using pos [unfolded T_def] by (rule percentage_sum_createDistribution)
  have each: "real c / real T * 100 * (1 - 1 / 2 ^ 53)\<^sup>2 \<le> fmul P (fdiv P (real c) (real T)) 100
              \<and> fmul P (fdiv P (real c) (real T)) 100 \<le> real c / real T * 100 * (1 + 1 / 2 ^ 53)\<^sup>2"
    if "(l, c) \<in> set m" for l c
  proof -
    have "0 < c" using p that by (auto simp: positive_counts_def list_all_iff)
    moreover have "c \<le> T" unfolding T_def using that by (rule count_le_total)
    ultimately show ?thesis
      using percentage_bounds [OF r, of c T] t by (simp add: T_def)
  qed
  have one: "real T / real T = 1" using pos by simp
  have "sum_list (map (\<lambda>(l, c). real c / real T * 100 * (1 - 1 / 2 ^ 53)\<^sup>2) m)
        \<le> sum_list (map (\<lambda>(l, c). fmul P (fdiv P (real c) (real T)) 100) m)"
    by (rule sum_list_mono) (use each in auto)
  then show "100 * (1 - 1 / 2 ^ 53)\<^sup>2 \<le> percentage_sum (createDistribution P m)"
    unfolding s percentage_total T_def [symmetric] one by simp
  have "sum_list (map (\<lambda>(l, c). fmul P (fdiv P (real c) (real T)) 100) m)
        \<le> sum_list (map (\<lambda>(l, c). real c / real T * 100 * (1 + 1 / 2 ^ 53)\<^sup>2) m)"
    by (rule sum_list_mono) (use each in auto)
  then show "percentage_sum (createDistribution P m) \<le> 100 * (1 + 1 / 2 ^ 53)\<^sup>2"
    unfolding s percentage_total T_def [symmetric] one by simp
qed

lemma createDistribution_near:
  assumes "ieee_rounding P" and "positive_counts m" and "m \<noteq> []"
    and "sum_list (map snd m) < 2 ^ 32"
  shows "\<bar>percentage_sum (createDistribution P m) - 100\<bar> \<le> 1 / 100"
  using createDistribution_sum [OF assms] rounding_tolerance by linarith

lemma createDistribution_nonneg:
  assumes r: "ieee_rounding P"
  shows "list_all (\<lambda>d. 0 \<le> percentage d) (createDistribution P m)"
proof -
  have "0 \<le> fmul P (fdiv P a b) 100" if "0 \<le> a" "0 \<le> b" for a b
  proof -
    have "0 \<le> fl P (a / b)" using r that by (simp add: ieee_rounding_def)
    then have "0 \<le> fl P (a / b) * 100" by simp
    then show ?thesis using r by (simp add: fmul_def fdiv_def ieee_rounding_def)
  qed
  then show ?thesis
    by (auto simp: list_all_iff createDistribution_def Let_def set_sort_by)
qed

lemma sum_list_take_le:
  "list_all (\<lambda>x. 0 \<le> f x) xs \<Longrightarrow> sum_list (map f (take n xs)) \<le> sum_list (map f xs)"
  for f :: "'a \<Rightarrow> real"
proof (induction xs arbitrary: n)
  case Nil
  then show ?case by simp
next
  case (Cons x xs)
  have nn: "0 \<le> sum_list (map f xs)"
    by (rule sum_list_nonneg) (use Cons.prems in \<open>auto simp: list_all_iff\<close>)
  have fx: "0 \<le> f x" using Cons.prems by simp
  have ih: "\<And>k. sum_list (map f (take k xs)) \<le> sum_list (map f xs)"
    using Cons.IH Cons.prems by simp
  show ?case
  proof (cases n)
    case 0
    then show ?thesis using nn fx by simp
  next
    case (Suc k)
    then show ?thesis using ih [of k] by simp
  qed
qed

lemma truncated_sum:
  assumes "ieee_rounding P" and "positive_counts m" and "m \<noteq> []"
    and "sum_list (map snd m) < 2 ^ 32"
  shows "percentage_sum (take n (createDistribution P m)) \<le> 100 + 1 / 100"
    and "length m \<le> n \<Longrightarrow> \<bar>percentage_sum (take n (createDistribution P m)) - 100\<bar> \<le> 1 / 100"
proof -
  have "percentage_sum (take n (createDistribution P m)) \<le> percentage_sum (createDistribution P m)"
    unfolding percentage_sum_def
    by (rule sum_list_take_le) (rule createDistribution_nonneg [OF assms(1)])
  then show "percentage_sum (take n (createDistribution P m)) \<le> 100 + 1 / 100"
    using createDistribution_sum(2) [OF assms] rounding_tolerance by linarith
  show "length m \<le> n \<Longrightarrow> \<bar>percentage_sum (take n (createDistribution P m)) - 100\<bar> \<le> 1 / 100"
    using createDistribution_near [OF assms] by (simp add: length_createDistribution)
qed

lemma total_bump: "sum_list (map snd (bump k m)) = Suc (sum_list (map snd m))"
  by (induction m) auto

lemma total_fold_bump: "sum_list (map snd (fold bump ks m)) = sum_list (map snd m) + length ks"
  by (induction ks arbitrary: m) (simp_all add: total_bump)

subsection \<open>Adding doubles from the left\<close>

lemma power_upper:
  fixes u :: real
  assumes "0 \<le> u" and "real k * u \<le> 1"
  shows "(1 + u) ^ k \<le> 1 + 2 * (real k * u)"
proof -
  have "(1 + u) ^ k \<le> exp u ^ k"
    using assms(1) by (intro power_mono) (simp_all add: exp_ge_add_one_self)
  also have "\<dots> = exp (real k * u)" by (simp add: exp_of_nat_mult)
  also have "\<dots> \<le> 1 + real k * u + (real k * u)\<^sup>2"
    using assms by (intro exp_bound) simp_all
  also have "(real k * u)\<^sup>2 \<le> real k * u"
  proof -
    have "0 \<le> real k * u" using assms(1) by simp
    then have "(real k * u) * (real k * u) \<le> 1 * (real k * u)"
      using assms(2) by (intro mult_right_mono) simp_all
    then show ?thesis by (simp add: power2_eq_square)
  qed
  finally show ?thesis by (simp add: algebra_simps)
qed

lemma power_lower:
  fixes u :: real
  assumes "0 \<le> u" and "u \<le> 1"
  shows "1 - real k * u \<le> (1 - u) ^ k"
  using Bernoulli_inequality [of "- u" k] assms by simp

lemma fold_fadd_bounds:
  fixes lo hi :: real
  defines "lo \<equiv> 1 - 1 / 2 ^ 53" and "hi \<equiv> 1 + 1 / 2 ^ 53"
  assumes r: "ieee_rounding P"
    and xs: "\<forall>x\<in>set xs. 1 / 2 ^ 40 \<le> x"
    and a0: "0 \<le> a" and alo: "a * lo ^ j \<le> b" and ahi: "b \<le> a * hi ^ j"
    and top: "(a + sum_list xs) * hi ^ (j + length xs) \<le> 2 ^ 1023"
  shows "(a + sum_list xs) * lo ^ (j + length xs) \<le> fold (\<lambda>x s. fadd P s x) xs b
         \<and> fold (\<lambda>x s. fadd P s x) xs b \<le> (a + sum_list xs) * hi ^ (j + length xs)"
  using xs a0 alo ahi top
proof (induction xs arbitrary: a b j)
  case Nil
  then show ?case by simp
next
  case (Cons x xs)
  have lo: "0 \<le> lo" "lo \<le> 1" and hi: "1 \<le> hi" "0 \<le> hi" by (simp_all add: lo_def hi_def)
  have x: "1 / 2 ^ 40 \<le> x" using Cons.prems(1) by simp
  then have x0: "0 \<le> x" by (smt (verit) divide_nonneg_nonneg zero_le_numeral zero_le_power zero_le_one)
  have rest0: "0 \<le> sum_list xs"
  proof (rule sum_list_nonneg)
    fix z assume "z \<in> set xs"
    then have "1 / 2 ^ 40 \<le> z" using Cons.prems(1) by simp
    moreover have "(0::real) \<le> 1 / 2 ^ 40" by simp
    ultimately show "0 \<le> z" by linarith
  qed
  have loj: "lo ^ j \<le> 1" "0 \<le> lo ^ j" using lo by (simp_all add: power_le_one)
  have hij: "1 \<le> hi ^ j" using hi by (simp add: one_le_power)
  have b0: "0 \<le> b"
  proof -
    have "0 \<le> a * lo ^ j" using Cons.prems(2) loj by simp
    then show ?thesis using Cons.prems(3) by linarith
  qed
  define y where "y = b + x"
  have ylo: "(a + x) * lo ^ j \<le> y"
  proof -
    have "x * lo ^ j \<le> x * 1" using x0 loj by (intro mult_left_mono) simp_all
    then show ?thesis using Cons.prems(3) by (simp add: y_def algebra_simps)
  qed
  have yhi: "y \<le> (a + x) * hi ^ j"
  proof -
    have "x * 1 \<le> x * hi ^ j" using x0 hij by (intro mult_left_mono) simp_all
    then show ?thesis using Cons.prems(4) by (simp add: y_def algebra_simps)
  qed
  have y1: "1 / 2 ^ 1022 \<le> y"
  proof -
    have "(1::real) / 2 ^ 1022 \<le> 1 / 2 ^ 40"
      by (intro divide_left_mono power_increasing) simp_all
    then show ?thesis using x b0 by (simp add: y_def)
  qed
  have y2: "y \<le> 2 ^ 1023"
  proof -
    have "(a + x) * hi ^ j \<le> (a + x + sum_list xs) * hi ^ j"
      using rest0 hi by (intro mult_right_mono) simp_all
    also have "\<dots> \<le> (a + x + sum_list xs) * hi ^ (j + length (x # xs))"
      using rest0 x0 Cons.prems(2) hi by (intro mult_left_mono power_increasing) simp_all
    also have "\<dots> \<le> 2 ^ 1023" using Cons.prems(5) by (simp add: algebra_simps)
    finally show ?thesis using yhi by linarith
  qed
  have f: "y * lo \<le> fl P y" "fl P y \<le> y * hi"
    unfolding lo_def hi_def using fl_bounds [OF r y1 y2] by simp_all
  have n1: "(a + x) * lo ^ Suc j \<le> fl P y"
  proof -
    have "(a + x) * lo ^ j * lo \<le> y * lo" using ylo lo by (intro mult_right_mono) simp_all
    then show ?thesis using f(1) by (simp add: algebra_simps)
  qed
  have n2: "fl P y \<le> (a + x) * hi ^ Suc j"
  proof -
    have "y * hi \<le> (a + x) * hi ^ j * hi" using yhi hi by (intro mult_right_mono) simp_all
    then show ?thesis using f(2) by (simp add: algebra_simps)
  qed
  have t: "(a + x + sum_list xs) * hi ^ (Suc j + length xs) \<le> 2 ^ 1023"
    using Cons.prems(5) by (simp add: algebra_simps)
  have "(a + x + sum_list xs) * lo ^ (Suc j + length xs) \<le> fold (\<lambda>x s. fadd P s x) xs (fl P y)
        \<and> fold (\<lambda>x s. fadd P s x) xs (fl P y) \<le> (a + x + sum_list xs) * hi ^ (Suc j + length xs)"
    by (rule Cons.IH) (use Cons.prems(1,2) x0 n1 n2 t in simp_all)
  then show ?case by (simp add: fadd_def y_def algebra_simps)
qed

lemma fsum_bounds:
  assumes r: "ieee_rounding P"
    and xs: "\<forall>x\<in>set xs. 1 / 2 ^ 40 \<le> x"
    and n: "length xs \<le> 2 ^ 32" and s: "sum_list xs \<le> 2 ^ 8"
  shows "sum_list xs * (1 - 1 / 2 ^ 21) \<le> fsum P xs"
    and "fsum P xs \<le> sum_list xs * (1 + 1 / 2 ^ 20)"
proof -
  define lo :: real where "lo = 1 - 1 / 2 ^ 53"
  define hi :: real where "hi = 1 + 1 / 2 ^ 53"
  define k where "k = length xs"
  have s0: "0 \<le> sum_list xs"
  proof (rule sum_list_nonneg)
    fix z assume "z \<in> set xs"
    then have "1 / 2 ^ 40 \<le> z" using xs by simp
    moreover have "(0::real) \<le> 1 / 2 ^ 40" by simp
    ultimately show "0 \<le> z" by linarith
  qed
  have kr: "real k \<le> 2 ^ 32"
    using n unfolding k_def by (metis of_nat_le_iff of_nat_numeral of_nat_power)
  have ku: "real k * (1 / 2 ^ 53) \<le> 1 / 2 ^ 21"
  proof -
    have "real k * (1 / 2 ^ 53) \<le> 2 ^ 32 * (1 / 2 ^ 53)"
      using kr by (intro mult_right_mono) simp_all
    also have "\<dots> = (1::real) / 2 ^ 21" by simp
    finally show ?thesis .
  qed
  have hk: "hi ^ k \<le> 1 + 1 / 2 ^ 20"
  proof -
    have "(1 + 1 / 2 ^ 53) ^ k \<le> 1 + 2 * (real k * (1 / 2 ^ 53))"
    proof (rule power_upper)
      show "(0::real) \<le> 1 / 2 ^ 53" by simp
      have "(1::real) / 2 ^ 21 \<le> 1" by simp
      then show "real k * (1 / 2 ^ 53) \<le> 1" using ku by linarith
    qed
    also have "\<dots> \<le> 1 + 2 * (1 / 2 ^ 21)" using ku by simp
    also have "\<dots> = (1::real) + 1 / 2 ^ 20" by simp
    finally show ?thesis by (simp add: hi_def)
  qed
  have lk: "1 - 1 / 2 ^ 21 \<le> lo ^ k"
  proof -
    have "1 - real k * (1 / 2 ^ 53) \<le> (1 - 1 / 2 ^ 53) ^ k"
      by (rule power_lower) simp_all
    then show ?thesis using ku by (simp add: lo_def)
  qed
  have top: "(0 + sum_list xs) * (1 + 1 / 2 ^ 53) ^ (0 + length xs) \<le> 2 ^ 1023"
  proof -
    have "0 \<le> hi ^ k" by (simp add: hi_def)
    then have "sum_list xs * hi ^ k \<le> 2 ^ 8 * (1 + 1 / 2 ^ 20)"
      using s hk s0 by (intro mult_mono) simp_all
    also have "\<dots> \<le> (2::real) ^ 9" by simp
    also have "\<dots> \<le> (2::real) ^ 1023" by (intro power_increasing) simp_all
    finally show ?thesis by (simp add: hi_def k_def)
  qed
  have b: "(0 + sum_list xs) * (1 - 1 / 2 ^ 53) ^ (0 + length xs) \<le> fold (\<lambda>x s. fadd P s x) xs 0
        \<and> fold (\<lambda>x s. fadd P s x) xs 0 \<le> (0 + sum_list xs) * (1 + 1 / 2 ^ 53) ^ (0 + length xs)"
    by (rule fold_fadd_bounds [OF r xs _ _ _ top]) simp_all
  have "sum_list xs * (1 - 1 / 2 ^ 21) \<le> sum_list xs * lo ^ k"
    using lk s0 by (intro mult_left_mono) simp_all
  then show "sum_list xs * (1 - 1 / 2 ^ 21) \<le> fsum P xs"
    using b by (simp add: fsum_def lo_def k_def)
  have "sum_list xs * hi ^ k \<le> sum_list xs * (1 + 1 / 2 ^ 20)"
    using hk s0 by (intro mult_left_mono) simp_all
  then show "fsum P xs \<le> sum_list xs * (1 + 1 / 2 ^ 20)"
    using b by (simp add: fsum_def hi_def k_def)
qed

lemma counted_simps:
  "counted f [] = []"
  "counted f (x # xs) =
     (case f x of Some s \<Rightarrow> if s \<noteq> [] then [s] else [] | None \<Rightarrow> []) @ counted f xs"
  by (simp_all add: counted_def)

lemma patient_step_counts:
  "genderCounts (patient_step P now p st) = bump_opt (pat_gender p) (genderCounts st)"
  "raceCounts (patient_step P now p st) = bump_opt (extractRace (pat_extension p)) (raceCounts st)"
  "ethnicityCounts (patient_step P now p st)
     = bump_opt (extractEthnicity (pat_extension p)) (ethnicityCounts st)"
  "stateCounts (patient_step P now p st) = bump_opt (state_of p) (stateCounts st)"
  "cityCounts (patient_step P now p st) = bump_opt (city_of p) (cityCounts st)"
  by (simp_all add: patient_step_def state_of_def city_of_def bump_opt_def split: option.splits)

lemma patient_loop_genderCounts:
  "genderCounts (patient_loop P clock i ps st) = fold bump (counted pat_gender ps) (genderCounts st)"
  by (induction ps arbitrary: i st) (simp_all add: counted_simps patient_step_counts bump_opt_fold)

lemma patient_loop_raceCounts:
  "raceCounts (patient_loop P clock i ps st)
     = fold bump (counted (\<lambda>p. extractRace (pat_extension p)) ps) (raceCounts st)"
  by (induction ps arbitrary: i st) (simp_all add: counted_simps patient_step_counts bump_opt_fold)

lemma patient_loop_ethnicityCounts:
  "ethnicityCounts (patient_loop P clock i ps st)
     = fold bump (counted (\<lambda>p. extractEthnicity (pat_extension p)) ps) (ethnicityCounts st)"
  by (induction ps arbitrary: i st) (simp_all add: counted_simps patient_step_counts bump_opt_fold)

lemma patient_loop_stateCounts:
  "stateCounts (patient_loop P clock i ps st) = fold bump (counted state_of ps) (stateCounts st)"
  by (induction ps arbitrary: i st) (simp_all add: counted_simps patient_step_counts bump_opt_fold)

lemma patient_loop_cityCounts:
  "cityCounts (patient_loop P clock i ps st) = fold bump (counted city_of ps) (cityCounts st)"
  by (induction ps arbitrary: i st) (simp_all add: counted_simps patient_step_counts bump_opt_fold)

lemma analyzePatients_distributions:
  "genderDistribution (analyzePatients P clock ps)
     = createDistribution P (fold bump (counted pat_gender ps) [])"
  "raceDistribution (analyzePatients P clock ps)
     = createDistribution P (fold bump (counted (\<lambda>p. extractRace (pat_extension p)) ps) [])"
  "ethnicityDistribution (analyzePatients P clock ps)
     = createDistribution P (fold bump (counted (\<lambda>p. extractEthnicity (pat_extension p)) ps) [])"
  "stateDistribution (analyzePatients P clock ps)
     = take 15 (createDistribution P (fold bump (counted state_of ps) []))"
  "cityDistribution (analyzePatients P clock ps)
     = take 20 (createDistribution P (fold bump (counted city_of ps) []))"
  by (simp_all add: analyzePatients_def Let_def patient_init_def patient_loop_genderCounts
        patient_loop_raceCounts patient_loop_ethnicityCounts patient_loop_stateCounts
        patient_loop_cityCounts)

lemma encounter_step_counts:
  "classCounts (encounter_step P e st)
     = (if enc_class e = None then classCounts st else bump (getClassDisplay e) (classCounts st))"
  "typeCounts (encounter_step P e st) = bump (getTypeDisplay e) (typeCounts st)"
  "statusCounts (encounter_step P e st) = bump_opt (enc_status e) (statusCounts st)"
  by (simp_all add: encounter_step_def split: option.splits)

lemma fold_encounter_classCounts:
  "classCounts (fold (encounter_step P) es st)
     = fold bump (map getClassDisplay (filter (\<lambda>e. enc_class e \<noteq> None) es)) (classCounts st)"
  by (induction es arbitrary: st) (simp_all add: encounter_step_counts)

lemma fold_encounter_typeCounts:
  "typeCounts (fold (encounter_step P) es st) = fold bump (map getTypeDisplay es) (typeCounts st)"
  by (induction es arbitrary: st) (simp_all add: encounter_step_counts)

lemma fold_encounter_statusCounts:
  "statusCounts (fold (encounter_step P) es st) = fold bump (counted enc_status es) (statusCounts st)"
  by (induction es arbitrary: st) (simp_all add: counted_simps encounter_step_counts bump_opt_fold)

lemma analyzeEncounters_distributions:
  "classDistribution (analyzeEncounters P es)
     = createDistribution P
         (fold bump (map getClassDisplay (filter (\<lambda>e. enc_class e \<noteq> None) es)) [])"
  "typeDistribution (analyzeEncounters P es)
     = take 15 (createDistribution P (fold bump (map getTypeDisplay es) []))"
  "statusDistribution (analyzeEncounters P es)
     = createDistribution P (fold bump (counted enc_status es) [])"
  by (simp_all add: analyzeEncounters_def Let_def encounter_init_def fold_encounter_classCounts
        fold_encounter_typeCounts fold_encounter_statusCounts)

lemma positive_fold_bump_empty: "positive_counts (fold bump ks [])"
  by (rule fold_bump_positive) (simp add: positive_counts_def)

lemma length_le_total:
  "positive_counts m \<Longrightarrow> length m \<le> sum_list (map snd m)"
  by (induction m) (auto simp: positive_counts_def)

lemma percentage_lower:
  assumes r: "ieee_rounding P" and p: "positive_counts m"
    and t: "sum_list (map snd m) < 2 ^ 32" and d: "d \<in> set (createDistribution P m)"
  shows "1 / 2 ^ 40 \<le> percentage d"
proof -
  define T where "T = sum_list (map snd m)"
  have "d \<in> (\<lambda>(l, c). \<lparr>DistributionItem.label = l, count = c,
                 percentage = (if T > 0 then fmul P (fdiv P (real c) (real T)) 100 else 0)\<rparr>)
             ` set m"
    using d unfolding T_def by (simp add: createDistribution_def Let_def set_sort_by)
  then obtain x where xm: "x \<in> set m"
    and dx: "d = (case x of (l, c) \<Rightarrow> \<lparr>DistributionItem.label = l, count = c,
                 percentage = (if T > 0 then fmul P (fdiv P (real c) (real T)) 100 else 0)\<rparr>)"
    by blast
  obtain l c where x: "x = (l, c)" by (cases x)
  have lc: "(l, c) \<in> set m" using xm x by simp
  have pd: "percentage d = (if T > 0 then fmul P (fdiv P (real c) (real T)) 100 else 0)"
    using dx x by simp
  have c: "0 < c" using p lc by (auto simp: positive_counts_def list_all_iff)
  have ct: "c \<le> T" unfolding T_def using lc by (rule count_le_total)
  have tpos: "0 < real T" using c ct by simp
  have "real T \<le> 2 ^ 32"
    using t unfolding T_def by (metis less_imp_le of_nat_le_iff of_nat_numeral of_nat_power)
  then have "1 / 2 ^ 32 \<le> 1 / real T" using tpos by (simp add: field_simps)
  also have "1 / real T \<le> real c / real T" using c tpos by (simp add: field_simps)
  finally have q: "1 / 2 ^ 32 \<le> real c / real T" .
  have "(1 / 2 ^ 32) * 100 * (1 / 2) \<le> real c / real T * 100 * (1 - 1 / 2 ^ 53)\<^sup>2"
    using q by (intro mult_mono) (simp_all add: power2_eq_square)
  moreover have "(1::real) / 2 ^ 40 \<le> (1 / 2 ^ 32) * 100 * (1 / 2)" by simp
  moreover have "real c / real T * 100 * (1 - 1 / 2 ^ 53)\<^sup>2 \<le> fmul P (fdiv P (real c) (real T)) 100"
    using percentage_bounds(1) [OF r c ct] t by (simp add: T_def)
  ultimately show ?thesis using pd c ct by simp
qed

lemma tolerance_added:
  "(100::real) - 1 / 100 \<le> 100 * (1 - 1 / 2 ^ 53)\<^sup>2 * (1 - 1 / 2 ^ 21)"
  "100 * (1 + 1 / 2 ^ 53)\<^sup>2 * (1 + 1 / 2 ^ 20) \<le> (100::real) + 1 / 100"
  by (simp_all add: power2_eq_square)

lemma sum_list_take_all:
  "\<forall>x\<in>set xs. 0 \<le> x \<Longrightarrow> sum_list (take n xs) \<le> sum_list xs" for xs :: "real list"
  using sum_list_take_le [of "\<lambda>x. x" xs n] by (simp add: list_all_iff)

lemma added_take:
  assumes r: "ieee_rounding P" and p: "positive_counts m" and ne: "m \<noteq> []"
    and t: "sum_list (map snd m) < 2 ^ 32"
  shows "percentage_sum (take n (createDistribution P m)) * (1 - 1 / 2 ^ 21)
           \<le> added_percentages P (take n (createDistribution P m))"
    and "added_percentages P (take n (createDistribution P m))
           \<le> percentage_sum (take n (createDistribution P m)) * (1 + 1 / 2 ^ 20)"
proof -
  define xs where "xs = map percentage (take n (createDistribution P m))"
  have low: "\<forall>x\<in>set xs. 1 / 2 ^ 40 \<le> x"
    unfolding xs_def using percentage_lower [OF r p t] by (auto dest: in_set_takeD)
  have "length xs \<le> length m" by (simp add: xs_def length_createDistribution)
  also have "\<dots> \<le> sum_list (map snd m)" using p by (rule length_le_total)
  also have "\<dots> \<le> 2 ^ 32" using t by simp
  finally have len: "length xs \<le> 2 ^ 32" .
  have "sum_list xs \<le> 100 + 1 / 100"
    using truncated_sum(1) [OF r p ne t, of n] by (simp add: xs_def percentage_sum_def)
  moreover have "(100::real) + 1 / 100 \<le> 2 ^ 8" by simp
  ultimately have s: "sum_list xs \<le> 2 ^ 8" by linarith
  show "percentage_sum (take n (createDistribution P m)) * (1 - 1 / 2 ^ 21)
           \<le> added_percentages P (take n (createDistribution P m))"
    using fsum_bounds(1) [OF r low len s]
    by (simp add: xs_def percentage_sum_def added_percentages_def)
  show "added_percentages P (take n (createDistribution P m))
           \<le> percentage_sum (take n (createDistribution P m)) * (1 + 1 / 2 ^ 20)"
    using fsum_bounds(2) [OF r low len s]
    by (simp add: xs_def percentage_sum_def added_percentages_def)
qed

lemma added_upper:
  assumes r: "ieee_rounding P" and p: "positive_counts m" and ne: "m \<noteq> []"
    and t: "sum_list (map snd m) < 2 ^ 32"
  shows "added_percentages P (take n (createDistribution P m)) \<le> 100 + 1 / 100"
proof -
  define S where "S = percentage_sum (take n (createDistribution P m))"
  have "S \<le> percentage_sum (createDistribution P m)"
    unfolding S_def percentage_sum_def
    by (rule sum_list_take_le) (rule createDistribution_nonneg [OF r])
  then have "S \<le> 100 * (1 + 1 / 2 ^ 53)\<^sup>2"
    using createDistribution_sum(2) [OF r p ne t] by linarith
  then have "S * (1 + 1 / 2 ^ 20) \<le> 100 * (1 + 1 / 2 ^ 53)\<^sup>2 * (1 + 1 / 2 ^ 20)"
    by (intro mult_right_mono) simp_all
  then show ?thesis
    using added_take(2) [OF r p ne t, of n] tolerance_added(2) unfolding S_def by linarith
qed

lemma added_near:
  assumes r: "ieee_rounding P" and p: "positive_counts m" and ne: "m \<noteq> []"
    and t: "sum_list (map snd m) < 2 ^ 32"
  shows "\<bar>added_percentages P (createDistribution P m) - 100\<bar> \<le> 1 / 100"
proof -
  define S where "S = percentage_sum (createDistribution P m)"
  have S: "100 * (1 - 1 / 2 ^ 53)\<^sup>2 \<le> S" "S \<le> 100 * (1 + 1 / 2 ^ 53)\<^sup>2"
    unfolding S_def using createDistribution_sum [OF r p ne t] by simp_all
  have all: "take (length m) (createDistribution P m) = createDistribution P m"
    by (simp add: length_createDistribution)
  have a: "S * (1 - 1 / 2 ^ 21) \<le> added_percentages P (createDistribution P m)"
    and b: "added_percentages P (createDistribution P m) \<le> S * (1 + 1 / 2 ^ 20)"
    using added_take [OF r p ne t, of "length m"] unfolding all S_def by simp_all
  have "100 * (1 - 1 / 2 ^ 53)\<^sup>2 * (1 - 1 / 2 ^ 21) \<le> S * (1 - 1 / 2 ^ 21)"
    using S(1) by (intro mult_right_mono) simp_all
  moreover have "S * (1 + 1 / 2 ^ 20) \<le> 100 * (1 + 1 / 2 ^ 53)\<^sup>2 * (1 + 1 / 2 ^ 20)"
    using S(2) by (intro mult_right_mono) simp_all
  ultimately show ?thesis using a b tolerance_added by linarith
qed

lemma closed_createDistribution:
  assumes r: "ieee_rounding P" and t: "length ks < 2 ^ 32"
  shows "closed_distribution P (createDistribution P (fold bump ks []))"
proof -
  have tot: "sum_list (map snd (fold bump ks [])) < 2 ^ 32"
    using t by (simp add: total_fold_bump)
  have "within_tolerance P (createDistribution P (fold bump ks []))"
    if "createDistribution P (fold bump ks []) \<noteq> []"
  proof -
    from that have ne: "fold bump ks [] \<noteq> []" by (simp add: createDistribution_Nil)
    show ?thesis
      unfolding within_tolerance_def
      using createDistribution_near [OF r positive_fold_bump_empty ne tot]
        added_near [OF r positive_fold_bump_empty ne tot] by simp
  qed
  then show ?thesis by (simp add: closed_distribution_def)
qed

lemma capped_createDistribution:
  assumes r: "ieee_rounding P" and t: "length ks < 2 ^ 32"
  shows "capped_distribution P n (length (remdups ks))
           (take n (createDistribution P (fold bump ks [])))"
proof -
  have tot: "sum_list (map snd (fold bump ks [])) < 2 ^ 32"
    using t by (simp add: total_fold_bump)
  have "percentage_sum (take n (createDistribution P (fold bump ks []))) \<le> 100 + 1 / 100
        \<and> added_percentages P (take n (createDistribution P (fold bump ks []))) \<le> 100 + 1 / 100
        \<and> (length (remdups ks) \<le> n \<longrightarrow>
             within_tolerance P (take n (createDistribution P (fold bump ks []))))"
    if "take n (createDistribution P (fold bump ks [])) \<noteq> []"
  proof -
    from that have ne: "fold bump ks [] \<noteq> []"
      using createDistribution_Nil [of P "fold bump ks []"] by auto
    have w: "within_tolerance P (take n (createDistribution P (fold bump ks [])))"
      if "length (remdups ks) \<le> n"
    proof -
      have "take n (createDistribution P (fold bump ks [])) = createDistribution P (fold bump ks [])"
        using that by (simp add: length_createDistribution length_fold_bump)
      then show ?thesis
        unfolding within_tolerance_def
        using createDistribution_near [OF r positive_fold_bump_empty ne tot]
          added_near [OF r positive_fold_bump_empty ne tot] by simp
    qed
    show ?thesis
      using truncated_sum(1) [OF r positive_fold_bump_empty ne tot, of n]
        added_upper [OF r positive_fold_bump_empty ne tot, of n] w by simp
  qed
  then show ?thesis by (simp add: capped_distribution_def)
qed

lemma length_counted: "length (counted f xs) \<le> length xs"
  by (induction xs) (simp_all add: counted_simps split: option.splits)

text \<open>
  Claim C4, as amended.  On a platform whose doubles round as IEEE 754 prescribes, and
  for arrays of fewer than \<open>2 ^ 32\<close> records (the longest a JavaScript array can be), the
  percentages of a non-empty gender, race, ethnicity, class or status distribution sum
  to within 0.01 of 100, whether the sum is taken exactly or by adding the doubles from
  the left.  The state, city and type distributions are cut to their first 15, 20 and
  15 items after sorting: their percentages sum to at most 100.01, and to within 0.01
  of 100 when no more than that many distinct labels were counted.
\<close>

theorem distribution_percentages:
  assumes "ieee_rounding P" and "length patients < 2 ^ 32" and "length encounters < 2 ^ 32"
  shows "closed_distribution P (genderDistribution (analyzePatients P clock patients))
   \<and> closed_distribution P (raceDistribution (analyzePatients P clock patients))
   \<and> closed_distribution P (ethnicityDistribution (analyzePatients P clock patients))
   \<and> closed_distribution P (classDistribution (analyzeEncounters P encounters))
   \<and> closed_distribution P (statusDistribution (analyzeEncounters P encounters))
   \<and> capped_distribution P 15 (length (remdups (counted state_of patients)))
        (stateDistribution (analyzePatients P clock patients))
   \<and> capped_distribution P 20 (length (remdups (counted city_of patients)))
        (cityDistribution (analyzePatients P clock patients))
   \<and> capped_distribution P 15 (length (remdups (map getTypeDisplay encounters)))
        (typeDistribution (analyzeEncounters P encounters))"
proof -
  have p: "length (counted f patients) < 2 ^ 32" for f
    using length_counted [of f patients] assms(2) by linarith
  have e: "length (counted f encounters) < 2 ^ 32" for f
    using length_counted [of f encounters] assms(3) by linarith
  have c: "length (map getClassDisplay (filter (\<lambda>e. enc_class e \<noteq> None) encounters)) < 2 ^ 32"
  proof -
    have "length (map getClassDisplay (filter (\<lambda>e. enc_class e \<noteq> None) encounters))
          = length (filter (\<lambda>e. enc_class e \<noteq> None) encounters)"
      by (rule length_map)
    also have "\<dots> \<le> length encounters" by (rule length_filter_le)
    also have "\<dots> < 2 ^ 32" by (rule assms(3))
    finally show ?thesis .
  qed
  have t: "length (map getTypeDisplay encounters) < 2 ^ 32"
    using assms(3) by simp
  show ?thesis
    unfolding analyzePatients_distributions analyzeEncounters_distributions
    using closed_createDistribution [OF assms(1) p] closed_createDistribution [OF assms(1) e]
      closed_createDistribution [OF assms(1) c]
      capped_createDistribution [OF assms(1) p] capped_createDistribution [OF assms(1) t]
    by blast
qed

lemma demo_arith:
  "fadd demo_platform a b = a + b" "fsub demo_platform a b = a - b"
  "fmul demo_platform a b = a * b" "fdiv demo_platform a b = a / b"
  by (simp_all add: fadd_def fsub_def fmul_def fdiv_def demo_platform_def demo_fl_def)

lemma demo_rounding: "ieee_rounding demo_platform"
  by (simp add: ieee_rounding_def demo_platform_def demo_fl_def)

lemma sixteen_counts:
  "fold bump sixteen_states [] = map (\<lambda>s. (s, 1)) sixteen_states"
  by (simp add: sixteen_states_def ustr_def)

lemma counted_sixteen: "counted state_of (map patient_in_state sixteen_states) = sixteen_states"
  by (simp add: sixteen_states_def counted_simps state_of_def primaryAddress_def
        patient_in_state_def empty_patient_def ustr_def)

text \<open>
  Sixteen patients in sixteen states: the state distribution keeps fifteen items of
  6.25 percent each, which sum to 93.75 (all of these numbers are doubles, so that no
  operation rounds).
\<close>

theorem distribution_truncation_counterexample:
  "stateDistribution (analyzePatients demo_platform (\<lambda>i. 0) (map patient_in_state sixteen_states)) \<noteq> []
   \<and> percentage_sum
        (stateDistribution (analyzePatients demo_platform (\<lambda>i. 0) (map patient_in_state sixteen_states)))
       = 375 / 4
   \<and> added_percentages demo_platform
        (stateDistribution (analyzePatients demo_platform (\<lambda>i. 0) (map patient_in_state sixteen_states)))
       = 375 / 4
   \<and> \<not> \<bar>percentage_sum
          (stateDistribution (analyzePatients demo_platform (\<lambda>i. 0) (map patient_in_state sixteen_states)))
         - 100\<bar> \<le> 1 / 100"
proof -
  have d: "stateDistribution (analyzePatients demo_platform (\<lambda>i. 0) (map patient_in_state sixteen_states))
           = take 15 (createDistribution demo_platform (map (\<lambda>s. (s, 1)) sixteen_states))"
    by (simp only: analyzePatients_distributions counted_sixteen sixteen_counts)
  have s: "percentage_sum (take 15 (createDistribution demo_platform (map (\<lambda>s. (s, 1)) sixteen_states)))
           = 375 / 4"
    by (simp add: percentage_sum_def createDistribution_def sort_by_def sixteen_states_def
          demo_arith)
  have a: "added_percentages demo_platform
             (take 15 (createDistribution demo_platform (map (\<lambda>s. (s, 1)) sixteen_states)))
           = 375 / 4"
    by (simp add: added_percentages_def fsum_def createDistribution_def sort_by_def
          sixteen_states_def demo_arith)
  have n: "take 15 (createDistribution demo_platform (map (\<lambda>s. (s, 1)) sixteen_states)) \<noteq> []"
    by (simp add: createDistribution_def sort_by_def sixteen_states_def)
  show ?thesis unfolding d using s a n by simp
qed

lemma sorted_insert_by:
  assumes trans: "\<And>a b c. le a b \<Longrightarrow> le b c \<Longrightarrow> le a c"
    and total: "\<And>a b. le a b \<or> le b a"
  shows "sorted_wrt le xs \<Longrightarrow> sorted_wrt le (insert_by le x xs)"
proof (induction xs)
  case Nil
  then show ?case by simp
next
  case (Cons y ys)
  show ?case
  proof (cases "le x y")
    case True
    then show ?thesis using Cons.prems trans by auto
  next
    case False
    then have "le y x" using total by blast
    then show ?thesis using False Cons by (auto simp: set_insert_by)
  qed
qed

lemma sorted_sort_by:
  assumes "\<And>a b c. le a b \<Longrightarrow> le b c \<Longrightarrow> le a c" and "\<And>a b. le a b \<or> le b a"
  shows "sorted_wrt le (sort_by le xs)"
  by (induction xs) (simp_all add: sort_by_def sorted_insert_by [OF assms])

lemma map_insert_by:
  "map f (insert_by (\<lambda>a b. le (f a) (f b)) x xs) = insert_by le (f x) (map f xs)"
  by (induction xs) simp_all

lemma map_sort_by:
  "map f (sort_by (\<lambda>a b. le (f a) (f b)) xs) = sort_by le (map f xs)"
  by (induction xs) (simp_all add: sort_by_def map_insert_by)

lemma toMonthKey_None: "toMonthKey P s = None \<longleftrightarrow> Date_parse P s = None"
  by (simp add: toMonthKey_def Let_def split: option.splits)

lemma toMonthKey_Some: "toMonthKey P s = Some k \<Longrightarrow> \<exists>t. Date_parse P s = Some t"
  by (auto simp: toMonthKey_def Let_def split: option.splits)

lemma toMonthKey_nonempty: "toMonthKey P s = Some k \<Longrightarrow> k \<noteq> []"
  by (auto simp: toMonthKey_def Let_def ustr_def split: option.splits)

lemma encounter_step_monthCounts:
  "monthCounts (encounter_step P e st) = bump_opt (month_key_of P e) (monthCounts st)"
  by (cases "periodStart e")
     (auto simp: encounter_step_def month_key_of_def bump_opt_def toMonthKey_None
           dest: toMonthKey_Some split: option.splits)

lemma fold_encounter_monthCounts:
  "monthCounts (fold (encounter_step P) es st)
     = fold bump (counted (month_key_of P) es) (monthCounts st)"
  by (induction es arbitrary: st) (simp_all add: counted_simps encounter_step_monthCounts bump_opt_fold)

lemma counted_month_keys: "counted (month_key_of P) es = month_keys P es"
proof (induction es)
  case Nil
  then show ?case by (simp add: counted_simps month_keys_def)
next
  case (Cons e es)
  show ?case
  proof (cases "month_key_of P e")
    case None
    then have "\<not> valid_start P e"
      by (auto simp: month_key_of_def valid_start_def toMonthKey_None split: option.splits if_splits)
    then show ?thesis using None Cons by (simp add: counted_simps month_keys_def)
  next
    case (Some k)
    then have v: "valid_start P e" and m: "month_of P e = k"
      by (auto simp: month_key_of_def valid_start_def month_of_def toMonthKey_None
               dest: toMonthKey_Some split: option.splits if_splits)
    have "k \<noteq> []" using Some
      by (auto simp: month_key_of_def dest: toMonthKey_nonempty split: option.splits if_splits)
    then show ?thesis using Some Cons v m by (simp add: counted_simps month_keys_def)
  qed
qed

lemma encounter_step_missingStart:
  "acc_missingPeriodStart (encounter_step P e st)
     = acc_missingPeriodStart st + (if present (periodStart e) then 0 else 1)"
  by (simp add: encounter_step_def)

lemma fold_encounter_missingStart:
  "acc_missingPeriodStart (fold (encounter_step P) es st)
     = acc_missingPeriodStart st + length (filter (\<lambda>e. \<not> present (periodStart e)) es)"
  by (induction es arbitrary: st) (simp_all add: encounter_step_missingStart)

lemma map_of_bump:
  "map_of (bump k m) = (map_of m)(k \<mapsto> (case map_of m k of None \<Rightarrow> 1 | Some n \<Rightarrow> n + 1))"
  by (induction m) (auto simp: fun_eq_iff)

lemma map_of_fold_bump:
  "map_of (fold bump ks m) k
     = (if k \<in> set ks \<or> map_of m k \<noteq> None
        then Some (count_list ks k + (case map_of m k of None \<Rightarrow> 0 | Some n \<Rightarrow> n))
        else None)"
  by (induction ks arbitrary: m) (auto simp: map_of_bump split: option.splits)

lemma fold_bump_entries:
  "(k, n) \<in> set (fold bump ks []) \<Longrightarrow> n = count_list ks k"
proof -
  assume "(k, n) \<in> set (fold bump ks [])"
  moreover have "distinct (map fst (fold bump ks []))" by (rule distinct_fold_bump) simp
  ultimately have "map_of (fold bump ks []) k = Some n" by simp
  then show ?thesis by (simp add: map_of_fold_bump split: if_splits)
qed

lemma time_series_dates:
  "map date (time_series P m) = sort_by (\<lambda>a b. localeCompare P a b \<le> 0) (map fst m)"
proof -
  have "map date (time_series P m)
        = map fst (sort_by (\<lambda>a b. localeCompare P (fst a) (fst b) \<le> 0) m)"
    by (simp add: time_series_def comp_def case_prod_unfold)
  then show ?thesis
    by (simp only: map_sort_by [of fst "\<lambda>a b. localeCompare P a b \<le> 0"])
qed

lemma time_series_counts:
  "map (\<lambda>p. (date p, TimeSeriesPoint.count p)) (time_series P m)
     = sort_by (\<lambda>a b. localeCompare P (fst a) (fst b) \<le> 0) m"
  by (simp add: time_series_def comp_def case_prod_unfold)

lemma distinct_insert_by: "distinct (insert_by le x xs) \<longleftrightarrow> x \<notin> set xs \<and> distinct xs"
  by (induction xs) (auto simp: set_insert_by)

lemma distinct_sort_by: "distinct (sort_by le xs) \<longleftrightarrow> distinct xs"
  by (induction xs) (simp_all add: sort_by_def distinct_insert_by set_sort_by [unfolded sort_by_def])

lemma analyzeEncounters_series:
  "encountersByMonth (analyzeEncounters P es) = time_series P (fold bump (month_keys P es) [])"
  "missingPeriodStart (analyzeEncounters P es)
     = length (filter (\<lambda>e. \<not> present (periodStart e)) es)"
  by (simp_all add: analyzeEncounters_def Let_def encounter_init_def fold_encounter_monthCounts
        counted_month_keys fold_encounter_missingStart)

lemma series_counts:
  "map TimeSeriesPoint.count (time_series P (fold bump ks []))
     = map (count_list ks) (map date (time_series P (fold bump ks [])))"
proof -
  have "\<And>p. p \<in> set (time_series P (fold bump ks [])) \<Longrightarrow>
          TimeSeriesPoint.count p = count_list ks (date p)"
  proof -
    fix p assume "p \<in> set (time_series P (fold bump ks []))"
    then have "(date p, TimeSeriesPoint.count p)
               \<in> set (map (\<lambda>p. (date p, TimeSeriesPoint.count p)) (time_series P (fold bump ks [])))"
      by (simp add: image_iff) blast
    then have "(date p, TimeSeriesPoint.count p) \<in> set (fold bump ks [])"
      by (simp only: time_series_counts set_sort_by)
    then show "TimeSeriesPoint.count p = count_list ks (date p)"
      by (rule fold_bump_entries)
  qed
  then show ?thesis by simp
qed

lemma series_total:
  "sum_list (map TimeSeriesPoint.count (time_series P (fold bump ks []))) = length ks"
proof -
  have "map TimeSeriesPoint.count (time_series P (fold bump ks []))
        = map snd (map (\<lambda>p. (date p, TimeSeriesPoint.count p)) (time_series P (fold bump ks [])))"
    by (simp add: comp_def)
  also have "\<dots> = map snd (sort_by (\<lambda>a b. localeCompare P (fst a) (fst b) \<le> 0) (fold bump ks []))"
    by (simp only: time_series_counts)
  finally show ?thesis
    by (simp add: sum_list_sort_by total_fold_bump)
qed

text \<open>
  Claim C7, as amended.  \<open>missingPeriodStart\<close> counts the records whose start is absent
  or empty, and only those.  The month series has one point for each month key of a
  record with a valid start (\<open>valid_start\<close>: present and parsed by \<open>Date\<close>), with the
  number of such records as its count, so records with an absent or invalid start are
  not in it; and it is sorted by month key in the order of \<open>localeCompare\<close>, provided
  \<open>localeCompare\<close> is a total preorder.
\<close>

theorem encounters_by_month:
  "missingPeriodStart (analyzeEncounters P es)
     = length (filter (\<lambda>e. \<not> present (periodStart e)) es)
   \<and> set (map date (encountersByMonth (analyzeEncounters P es))) = set (month_keys P es)
   \<and> distinct (map date (encountersByMonth (analyzeEncounters P es)))
   \<and> map TimeSeriesPoint.count (encountersByMonth (analyzeEncounters P es))
       = map (count_list (month_keys P es)) (map date (encountersByMonth (analyzeEncounters P es)))
   \<and> sum_list (map TimeSeriesPoint.count (encountersByMonth (analyzeEncounters P es)))
       = length (filter (valid_start P) es)
   \<and> (consistent_comparator P \<longrightarrow>
        sorted_wrt (\<lambda>a b. localeCompare P a b \<le> 0)
          (map date (encountersByMonth (analyzeEncounters P es))))"
proof -
  let ?m = "fold bump (month_keys P es) []"
  have keys: "set (map fst ?m) = set (month_keys P es)"
    using keys_fold_bump [of "month_keys P es" "[]"] by simp
  have dist: "distinct (map fst ?m)" by (rule distinct_fold_bump) simp
  have a: "set (map date (time_series P ?m)) = set (month_keys P es)"
    by (simp only: time_series_dates set_sort_by keys)
  have b: "distinct (map date (time_series P ?m))"
    by (simp only: time_series_dates distinct_sort_by dist)
  have c: "sum_list (map TimeSeriesPoint.count (time_series P ?m))
           = length (filter (valid_start P) es)"
    by (simp add: series_total) (simp add: month_keys_def)
  have d: "consistent_comparator P \<Longrightarrow>
           sorted_wrt (\<lambda>a b. localeCompare P a b \<le> 0) (map date (time_series P ?m))"
  proof -
    assume cc: "consistent_comparator P"
    have t: "\<And>a b c. localeCompare P a b \<le> 0 \<Longrightarrow> localeCompare P b c \<le> 0
                \<Longrightarrow> localeCompare P a c \<le> 0"
      using cc unfolding consistent_comparator_def by blast
    have l: "\<And>a b. localeCompare P a b \<le> 0 \<or> localeCompare P b a \<le> 0"
      using cc unfolding consistent_comparator_def by blast
    show ?thesis
      unfolding time_series_dates
      by (rule sorted_sort_by [of "\<lambda>a b. localeCompare P a b \<le> 0"]) (use t l in blast)+
  qed
  show ?thesis
    unfolding analyzeEncounters_series
    using a b c d series_counts [of P "month_keys P es"] by blast
qed

lemma demo_localeCompare_total:
  "demo_localeCompare a b \<le> 0 \<or> demo_localeCompare b a \<le> 0"
  by (induction a b rule: demo_localeCompare.induct) auto

lemma demo_localeCompare_trans:
  "demo_localeCompare a b \<le> 0 \<Longrightarrow> demo_localeCompare b c \<le> 0 \<Longrightarrow> demo_localeCompare a c \<le> 0"
proof (induction a b arbitrary: c rule: demo_localeCompare.induct)
  case 1
  then show ?case by simp
next
  case (2 b bs)
  then show ?case by (cases c) simp_all
next
  case (3 a as)
  then show ?case by simp
next
  case (4 a as b bs)
  then show ?case
    by (cases c) (auto split: if_splits)
qed

lemma demo_consistent: "consistent_comparator demo_platform"
  unfolding consistent_comparator_def
  using demo_localeCompare_total demo_localeCompare_trans
  by (simp add: demo_platform_def) blast

lemma demo_start_dates:
  "Date_parse demo_platform (ustr ''2024-01-15T09:00:00Z'') = Some 1705309200000"
  "Date_parse demo_platform (ustr ''2023-12-31T10:00:00Z'') = Some 1704016800000"
  by (simp_all add: demo_platform_def demo_Date_parse_def ustr_def)

lemma demo_calendar_2024_01_15:
  "demo_getFullYear 1705309200000 = 2024" "demo_getMonth 1705309200000 = 0"
  "demo_getDate 1705309200000 = 15"
  by code_simp+

lemma demo_calendar_2023_12_31:
  "demo_getFullYear 1704016800000 = 2023" "demo_getMonth 1704016800000 = 11"
  "demo_getDate 1704016800000 = 31"
  by code_simp+

lemma demo_getters:
  "getFullYear demo_platform = demo_getFullYear" "getMonth demo_platform = demo_getMonth"
  "getDate demo_platform = demo_getDate"
  by (simp_all add: demo_platform_def)

lemma show_int_nonneg: "0 \<le> i \<Longrightarrow> show_int i = show_nat (nat i)"
  by (simp add: show_int_def)

lemma demo_month_keys:
  "toMonthKey demo_platform (ustr ''2024-01-15T09:00:00Z'') = Some (ustr ''2024-01'')"
  "toMonthKey demo_platform (ustr ''2023-12-31T10:00:00Z'') = Some (ustr ''2023-12'')"
  by (simp_all add: toMonthKey_def demo_start_dates Let_def demo_getters
        demo_calendar_2024_01_15 demo_calendar_2023_12_31 show_int_nonneg show_nat_digit
        show_nat_more padStart2_def)
     (simp_all add: digit_char_def ustr_def)

lemma demo_month_of:
  "month_keys demo_platform three_encounters = [ustr ''2024-01'', ustr ''2023-12'']"
  by (simp add: month_keys_def three_encounters_def valid_start_def month_of_def periodStart_def
        encounter_starting_def empty_encounter_def demo_start_dates demo_month_keys)
     (simp add: ustr_def)

theorem encounters_by_month_witness:
  "consistent_comparator demo_platform
   \<and> map date (encountersByMonth (analyzeEncounters demo_platform three_encounters))
       = [ustr ''2023-12'', ustr ''2024-01'']
   \<and> map TimeSeriesPoint.count (encountersByMonth (analyzeEncounters demo_platform three_encounters))
       = [1, 1]
   \<and> sorted_wrt (\<lambda>a b. localeCompare demo_platform a b \<le> 0)
        (map date (encountersByMonth (analyzeEncounters demo_platform three_encounters)))
   \<and> missingPeriodStart (analyzeEncounters demo_platform three_encounters) = 1"
proof -
  have dates: "map date (encountersByMonth (analyzeEncounters demo_platform three_encounters))
           = [ustr ''2023-12'', ustr ''2024-01'']"
    by (simp add: analyzeEncounters_series demo_month_of time_series_dates)
       (simp add: sort_by_def demo_platform_def ustr_def)
  have missing: "length (filter (\<lambda>e. \<not> present (periodStart e)) three_encounters) = 1"
    by (simp add: three_encounters_def periodStart_def encounter_starting_def empty_encounter_def
          ustr_def)
  show ?thesis
    using encounters_by_month [of demo_platform three_encounters] demo_consistent dates missing
    by (simp add: demo_month_of) (simp add: ustr_def)
qed

text \<open>
  A record whose start is present but not a date is left out of the series and is not
  counted in \<open>missingPeriodStart\<close>.
\<close>

theorem missing_start_counterexample:
  "periodStart (encounter_starting ''not-a-date'') = Some (ustr ''not-a-date'')
   \<and> Date_parse demo_platform (ustr ''not-a-date'') = None
   \<and> encountersByMonth (analyzeEncounters demo_platform [encounter_starting ''not-a-date'']) = []
   \<and> missingPeriodStart (analyzeEncounters demo_platform [encounter_starting ''not-a-date'']) = 0"
proof -
  have p: "periodStart (encounter_starting ''not-a-date'') = Some (ustr ''not-a-date'')"
    by (simp add: periodStart_def encounter_starting_def empty_encounter_def)
  have d: "Date_parse demo_platform (ustr ''not-a-date'') = None"
    by (simp add: demo_platform_def demo_Date_parse_def ustr_def)
  have k: "month_keys demo_platform [encounter_starting ''not-a-date''] = []"
    by (simp add: month_keys_def valid_start_def p d)
  have n: "ustr ''not-a-date'' \<noteq> []" by (simp add: ustr_def)
  show ?thesis
    by (simp add: analyzeEncounters_series k p d n time_series_def sort_by_def)
qed

lemma counted_two_patients:
  "counted pat_gender two_patients = [ustr ''female'', ustr ''male'']"
  "counted state_of two_patients = [ustr ''MA'']"
  by (simp_all add: two_patients_def counted_simps state_of_def primaryAddress_def
        empty_patient_def ustr_def)

theorem distribution_percentages_witness:
  "ieee_rounding demo_platform
   \<and> length two_patients < 2 ^ 32 \<and> length three_encounters < 2 ^ 32
   \<and> genderDistribution (analyzePatients demo_platform (\<lambda>i. 0) two_patients) \<noteq> []
   \<and> \<bar>percentage_sum (genderDistribution (analyzePatients demo_platform (\<lambda>i. 0) two_patients))
        - 100\<bar> \<le> 1 / 100
   \<and> \<bar>added_percentages demo_platform
         (genderDistribution (analyzePatients demo_platform (\<lambda>i. 0) two_patients)) - 100\<bar>
       \<le> 1 / 100
   \<and> stateDistribution (analyzePatients demo_platform (\<lambda>i. 0) two_patients) \<noteq> []
   \<and> length (remdups (counted state_of two_patients)) \<le> 15
   \<and> \<bar>percentage_sum (stateDistribution (analyzePatients demo_platform (\<lambda>i. 0) two_patients))
        - 100\<bar> \<le> 1 / 100
   \<and> \<bar>added_percentages demo_platform
         (stateDistribution (analyzePatients demo_platform (\<lambda>i. 0) two_patients)) - 100\<bar>
       \<le> 1 / 100"
proof -
  have l: "length two_patients < 2 ^ 32" "length three_encounters < 2 ^ 32"
    by (simp_all add: two_patients_def three_encounters_def)
  have g: "genderDistribution (analyzePatients demo_platform (\<lambda>i. 0) two_patients) \<noteq> []"
    by (simp add: analyzePatients_distributions createDistribution_Nil counted_two_patients)
  have c: "createDistribution demo_platform [(ustr ''MA'', Suc 0)] \<noteq> []"
    by (simp add: createDistribution_Nil)
  have s: "stateDistribution (analyzePatients demo_platform (\<lambda>i. 0) two_patients) \<noteq> []"
    using c by (simp add: analyzePatients_distributions counted_two_patients)
  have n: "length (remdups (counted state_of two_patients)) \<le> 15"
    by (simp add: counted_two_patients)
  show ?thesis
    using distribution_percentages [OF demo_rounding l, of "\<lambda>i. 0"] demo_rounding l g s n
    by (simp add: closed_distribution_def capped_distribution_def within_tolerance_def)
qed

subsection \<open>Class display\<close>

lemma encounter_step_missingClass:
  "acc_missingClass (encounter_step P e st)
     = acc_missingClass st + (if enc_class e = None then 1 else 0)"
  by (simp add: encounter_step_def split: option.splits)

lemma analyzeEncounters_missingClass:
  "missingClass (analyzeEncounters P es) = length (filter (\<lambda>e. enc_class e = None) es)"
proof -
  have "\<And>st. acc_missingClass (fold (encounter_step P) es st)
          = acc_missingClass st + length (filter (\<lambda>e. enc_class e = None) es)"
    by (induction es) (simp_all add: encounter_step_missingClass)
  then show ?thesis by (simp add: analyzeEncounters_def Let_def encounter_init_def)
qed

lemma inherited_not_own:
  "list_all (\<lambda>k. map_of codeMap k = None \<and> k \<noteq> []) Object_prototype_members"
  by (simp add: Object_prototype_members_def codeMap_def ustr_def)

lemma getClassDisplay_chain:
  "enc_class enc = None \<Longrightarrow> getClassDisplay enc = Str (ustr ''Unknown'')"
  "enc_class enc = Some c \<Longrightarrow> coding_display c = Some d \<Longrightarrow> d \<noteq> [] \<Longrightarrow>
     getClassDisplay enc = Str d"
  "enc_class enc = Some c \<Longrightarrow> \<not> present (coding_display c) \<Longrightarrow> coding_code c = Some k \<Longrightarrow>
     map_of codeMap k = Some name \<Longrightarrow> getClassDisplay enc = Str name"
  "enc_class enc = Some c \<Longrightarrow> \<not> present (coding_display c) \<Longrightarrow> coding_code c = Some k \<Longrightarrow>
     k \<noteq> [] \<Longrightarrow> map_of codeMap k = None \<Longrightarrow> k \<notin> set Object_prototype_members \<Longrightarrow>
     getClassDisplay enc = Str k"
  "enc_class enc = Some c \<Longrightarrow> \<not> present (coding_display c) \<Longrightarrow> coding_code c = Some k \<Longrightarrow>
     k \<in> set Object_prototype_members \<Longrightarrow> getClassDisplay enc = Inherited k"
  "enc_class enc = Some c \<Longrightarrow> \<not> present (coding_display c) \<Longrightarrow> \<not> present (coding_code c) \<Longrightarrow>
     getClassDisplay enc = Str (ustr ''Unknown'')"
proof -
  have own: "\<And>k. k \<in> set Object_prototype_members \<Longrightarrow> map_of codeMap k = None \<and> k \<noteq> []"
    using inherited_not_own by (simp add: list_all_iff)
  have nonempty: "\<And>k name. map_of codeMap k = Some name \<Longrightarrow> k \<noteq> []"
    by (auto simp: codeMap_def ustr_def split: if_splits)
  show "enc_class enc = None \<Longrightarrow> getClassDisplay enc = Str (ustr ''Unknown'')"
    by (simp add: getClassDisplay_def)
  show "enc_class enc = Some c \<Longrightarrow> coding_display c = Some d \<Longrightarrow> d \<noteq> [] \<Longrightarrow>
     getClassDisplay enc = Str d"
    by (simp add: getClassDisplay_def)
  show "enc_class enc = Some c \<Longrightarrow> \<not> present (coding_display c) \<Longrightarrow> coding_code c = Some k \<Longrightarrow>
     map_of codeMap k = Some name \<Longrightarrow> getClassDisplay enc = Str name"
    using nonempty [of k name] by (simp add: getClassDisplay_def codeMap_get_def)
  show "enc_class enc = Some c \<Longrightarrow> \<not> present (coding_display c) \<Longrightarrow> coding_code c = Some k \<Longrightarrow>
     k \<noteq> [] \<Longrightarrow> map_of codeMap k = None \<Longrightarrow> k \<notin> set Object_prototype_members \<Longrightarrow>
     getClassDisplay enc = Str k"
    by (simp add: getClassDisplay_def codeMap_get_def)
  show "enc_class enc = Some c \<Longrightarrow> \<not> present (coding_display c) \<Longrightarrow> coding_code c = Some k \<Longrightarrow>
     k \<in> set Object_prototype_members \<Longrightarrow> getClassDisplay enc = Inherited k"
    using own [of k] by (simp add: getClassDisplay_def codeMap_get_def)
  show "enc_class enc = Some c \<Longrightarrow> \<not> present (coding_display c) \<Longrightarrow> \<not> present (coding_code c) \<Longrightarrow>
     getClassDisplay enc = Str (ustr ''Unknown'')"
    by (simp add: getClassDisplay_def)
qed

text \<open>
  Claim C6, at the class code \<open>constructor\<close>: the lookup \<open>codeMap[code]\<close> finds the
  member the object literal inherits, so the display is that member and not the raw
  code (a code of the table and an unknown code resolve as the claim says).
\<close>

theorem class_display_inherited_member:
  "getClassDisplay (encounter_with_code ''constructor'') = Inherited (ustr ''constructor'')
   \<and> getClassDisplay (encounter_with_code ''constructor'') \<noteq> Str (ustr ''constructor'')
   \<and> map DistributionItem.label
        (classDistribution (analyzeEncounters demo_platform [encounter_with_code ''constructor'']))
       = [Inherited (ustr ''constructor'')]
   \<and> getClassDisplay (encounter_with_code ''AMB'') = Str (ustr ''Ambulatory'')
   \<and> getClassDisplay (encounter_with_code ''XYZ'') = Str (ustr ''XYZ'')"
proof -
  have c: "getClassDisplay (encounter_with_code ''constructor'') = Inherited (ustr ''constructor'')"
    by (simp add: getClassDisplay_def encounter_with_code_def empty_encounter_def codeMap_get_def
          codeMap_def Object_prototype_members_def ustr_def)
  have a: "getClassDisplay (encounter_with_code ''AMB'') = Str (ustr ''Ambulatory'')"
    by (simp add: getClassDisplay_def encounter_with_code_def empty_encounter_def codeMap_get_def
          codeMap_def Object_prototype_members_def ustr_def)
  have x: "getClassDisplay (encounter_with_code ''XYZ'') = Str (ustr ''XYZ'')"
    by (simp add: getClassDisplay_def encounter_with_code_def empty_encounter_def codeMap_get_def
          codeMap_def Object_prototype_members_def ustr_def)
  have d: "map DistributionItem.label
        (classDistribution (analyzeEncounters demo_platform [encounter_with_code ''constructor'']))
       = [Inherited (ustr ''constructor'')]"
    by (simp add: analyzeEncounters_distributions c createDistribution_def sort_by_def)
       (simp add: encounter_with_code_def empty_encounter_def)
  show ?thesis using c a x d by simp
qed

subsection \<open>Histograms\<close>

lemma count_first_total:
  "bucket_total (count_first m bs) = bucket_total bs + (if list_ex m bs then 1 else 0)"
  by (induction bs) (simp_all add: bucket_total_def)

lemma count_first_bounds:
  "map (\<lambda>b. (bmin b, bmax b)) (count_first m bs) = map (\<lambda>b. (bmin b, bmax b)) bs"
  by (induction bs) simp_all

lemma list_ex_bounds:
  assumes resp: "\<And>b b'. bmin b = bmin b' \<Longrightarrow> bmax b = bmax b' \<Longrightarrow> m b = m b'"
  shows "map (\<lambda>b. (bmin b, bmax b)) bs = map (\<lambda>b. (bmin b, bmax b)) bs'
         \<Longrightarrow> list_ex m bs = list_ex m bs'"
proof (induction bs arbitrary: bs')
  case Nil
  then show ?case by simp
next
  case (Cons b bs)
  then obtain c cs where bs': "bs' = c # cs" by (cases bs') auto
  have "m b = m c" using Cons.prems bs' by (intro resp) simp_all
  moreover have "list_ex m bs = list_ex m cs" using Cons bs' by simp
  ultimately show ?case by (simp add: bs')
qed

lemma fold_count_first_total:
  assumes resp: "\<And>v b b'. bmin b = bmin b' \<Longrightarrow> bmax b = bmax b' \<Longrightarrow> m v b = m v b'"
  shows "map (\<lambda>b. (bmin b, bmax b)) bs = map (\<lambda>b. (bmin b, bmax b)) bs0 \<Longrightarrow>
         bucket_total (fold (\<lambda>v. count_first (m v)) vs bs)
           = bucket_total bs + length (filter (\<lambda>v. list_ex (m v) bs0) vs)"
proof (induction vs arbitrary: bs)
  case Nil
  then show ?case by simp
next
  case (Cons v vs)
  have b: "map (\<lambda>b. (bmin b, bmax b)) (count_first (m v) bs) = map (\<lambda>b. (bmin b, bmax b)) bs0"
    using Cons.prems by (simp add: count_first_bounds)
  have e: "list_ex (m v) bs = list_ex (m v) bs0"
  proof (rule list_ex_bounds)
    show "\<And>b b'. bmin b = bmin b' \<Longrightarrow> bmax b = bmax b' \<Longrightarrow> m v b = m v b'"
      by (rule resp)
    show "map (\<lambda>b. (bmin b, bmax b)) bs = map (\<lambda>b. (bmin b, bmax b)) bs0"
      by (rule Cons.prems)
  qed
  show ?case
    by (simp add: Cons.IH [OF b] count_first_total e)
qed

lemma filter_positive_total:
  "bucket_total (filter (\<lambda>b. HistogramBucket.count b > 0) bs) = bucket_total bs"
  by (induction bs) (simp_all add: bucket_total_def)

lemma bucket_total_initial:
  "bucket_total age_buckets = 0" "bucket_total los_buckets = 0" "bucket_total per_patient_buckets = 0"
  by (simp_all add: bucket_total_def age_buckets_def los_buckets_def per_patient_buckets_def bucket_def)

lemma age_covered:
  "list_ex (age_matches age) age_buckets \<longleftrightarrow> 0 \<le> age \<and> age \<le> 120"
  by (simp add: age_buckets_def bucket_def age_matches_def le_bound_def numeral_eq_enat) arith

lemma los_covered: "0 \<le> los \<Longrightarrow> list_ex (los_matches los) los_buckets"
  by (simp add: los_buckets_def bucket_def los_matches_def less_bound_def numeral_eq_enat
        one_enat_def zero_enat_def) argo

lemma per_patient_covered: "1 \<le> n \<Longrightarrow> list_ex (per_patient_matches n) per_patient_buckets"
  by (simp add: per_patient_buckets_def bucket_def per_patient_matches_def le_bound_def
        numeral_eq_enat one_enat_def) arith

lemma createAgeHistogram_total:
  "bucket_total (createAgeHistogram xs) = length (filter (\<lambda>a. 0 \<le> a \<and> a \<le> 120) xs)"
proof -
  have "bucket_total (fold (\<lambda>v. count_first (age_matches v)) xs age_buckets)
        = bucket_total age_buckets + length (filter (\<lambda>v. list_ex (age_matches v) age_buckets) xs)"
    by (rule fold_count_first_total) (simp_all add: age_matches_def)
  then show ?thesis
    by (simp add: createAgeHistogram_def bucket_total_initial age_covered)
qed

lemma createLosHistogram_total:
  assumes "list_all (\<lambda>h. 0 \<le> h) hs"
  shows "bucket_total (createLosHistogram hs) = length hs"
proof -
  have "bucket_total (fold (\<lambda>v. count_first (los_matches v)) hs los_buckets)
        = bucket_total los_buckets + length (filter (\<lambda>v. list_ex (los_matches v) los_buckets) hs)"
    by (rule fold_count_first_total) (simp_all add: los_matches_def)
  moreover have "filter (\<lambda>v. list_ex (los_matches v) los_buckets) hs = hs"
    using assms by (simp add: filter_id_conv list_all_iff los_covered)
  ultimately show ?thesis
    by (simp add: createLosHistogram_def filter_positive_total bucket_total_initial)
qed

lemma createEncountersPerPatientHistogram_total:
  assumes "list_all (\<lambda>n. 1 \<le> n) counts"
  shows "bucket_total (createEncountersPerPatientHistogram counts) = length counts"
proof -
  have "bucket_total (fold (\<lambda>v. count_first (per_patient_matches v)) counts per_patient_buckets)
        = bucket_total per_patient_buckets
          + length (filter (\<lambda>v. list_ex (per_patient_matches v) per_patient_buckets) counts)"
    by (rule fold_count_first_total) (simp_all add: per_patient_matches_def)
  moreover have "filter (\<lambda>v. list_ex (per_patient_matches v) per_patient_buckets) counts = counts"
    using assms by (simp add: filter_id_conv list_all_iff per_patient_covered)
  ultimately show ?thesis
    by (simp add: createEncountersPerPatientHistogram_def filter_positive_total bucket_total_initial)
qed

lemma patient_loop_ages:
  "ages (patient_loop P clock i ps st) = ages st @ defined_ages P clock i ps"
  by (induction ps arbitrary: i st) (simp_all add: patient_step_def split: option.splits)

lemma analyzePatients_ages:
  "ageDistribution (analyzePatients P clock ps) = createAgeHistogram (defined_ages P clock 0 ps)"
  "ageStats (analyzePatients P clock ps)
     = calculateAgeStats P (map real_of_int (defined_ages P clock 0 ps))"
  by (simp_all add: analyzePatients_def Let_def patient_loop_ages patient_init_def)

lemma age_histogram_total:
  "bucket_total (ageDistribution (analyzePatients P clock ps))
     = length (filter (\<lambda>a. 0 \<le> a \<and> a \<le> 120) (defined_ages P clock 0 ps))"
  by (simp add: analyzePatients_ages createAgeHistogram_total)

lemma fdiv_nonneg: "ieee_rounding P \<Longrightarrow> 0 \<le> a \<Longrightarrow> 0 \<le> b \<Longrightarrow> 0 \<le> fdiv P a b"
  by (simp add: ieee_rounding_def fdiv_def)

lemma calculateLengthOfStay_nonneg:
  "ieee_rounding P \<Longrightarrow> calculateLengthOfStay P s e = Some los \<Longrightarrow> 0 \<le> los"
  by (auto simp: calculateLengthOfStay_def Let_def fdiv_nonneg split: if_splits option.splits)

lemma fold_encounter_losHours:
  "losHours (fold (encounter_step P) es st) = losHours st @ defined_stays P es"
  by (induction es arbitrary: st) (simp_all add: encounter_step_def defined_stays_def split: option.splits)

lemma defined_stays_nonneg:
  "ieee_rounding P \<Longrightarrow> list_all (\<lambda>h. 0 \<le> h) (defined_stays P es)"
  by (induction es) (auto simp: defined_stays_def dest: calculateLengthOfStay_nonneg split: option.splits)

lemma los_histogram_total:
  "ieee_rounding P \<Longrightarrow>
   bucket_total (losDistribution (analyzeEncounters P es)) = length (defined_stays P es)"
  by (simp add: analyzeEncounters_def Let_def fold_encounter_losHours encounter_init_def
        createLosHistogram_total defined_stays_nonneg)

lemma fold_encounter_patientCounts:
  "patientCounts (fold (encounter_step P) es st)
     = fold bump (counted (\<lambda>e. extractPatientId (subject_reference e)) es) (patientCounts st)"
  by (induction es arbitrary: st)
     (simp_all add: counted_simps encounter_step_def bump_opt_fold)

lemma per_patient_histogram_total:
  "bucket_total (encountersPerPatient (analyzeEncounters P es))
     = uniquePatientRefs (analyzeEncounters P es)"
proof -
  let ?m = "fold bump (counted (\<lambda>e. extractPatientId (subject_reference e)) es) []"
  have "positive_counts ?m" by (rule positive_fold_bump_empty)
  then have "list_all (\<lambda>n. 1 \<le> n) (map snd ?m)"
    by (auto simp: positive_counts_def list_all_iff)
  then have "bucket_total (createEncountersPerPatientHistogram (map snd ?m)) = length (map snd ?m)"
    by (rule createEncountersPerPatientHistogram_total)
  then show ?thesis
    by (simp add: analyzeEncounters_def Let_def fold_encounter_patientCounts encounter_init_def)
qed

subsection \<open>The age histogram above 120\<close>

lemma demo_calendar_1900_01_01:
  "demo_getFullYear (- 2208988800000) = 1900" "demo_getMonth (- 2208988800000) = 0"
  "demo_getDate (- 2208988800000) = 1"
  by code_simp+

lemma demo_calendar_2026_11_03:
  "demo_getFullYear 1793664000000 = 2026" "demo_getMonth 1793664000000 = 10"
  "demo_getDate 1793664000000 = 3"
  by code_simp+

lemma demo_calendar_2000_06_15:
  "demo_getFullYear 961027200000 = 2000" "demo_getMonth 961027200000 = 5"
  "demo_getDate 961027200000 = 15"
  by code_simp+

lemma demo_calendar_2030_06_14:
  "demo_getFullYear 1907668800000 = 2030" "demo_getMonth 1907668800000 = 5"
  "demo_getDate 1907668800000 = 14"
  "demo_getFullYear 1907672400000 = 2030" "demo_getMonth 1907672400000 = 5"
  "demo_getDate 1907672400000 = 14"
  by code_simp+

lemma demo_calendar_2030_06_15:
  "demo_getFullYear 1907755200000 = 2030" "demo_getMonth 1907755200000 = 5"
  "demo_getDate 1907755200000 = 15"
  by code_simp+

lemma demo_birth_dates:
  "Date_parse demo_platform (ustr ''1900-01-01'') = Some (- 2208988800000)"
  "Date_parse demo_platform (ustr ''2000-06-15'') = Some 961027200000"
  "ustr ''1900-01-01'' \<noteq> []" "ustr ''2000-06-15'' \<noteq> []"
  by (simp_all add: demo_platform_def demo_Date_parse_def ustr_def)

lemma demo_ages:
  "calculateAge demo_platform 1793664000000 (Some (ustr ''1900-01-01'')) None = Some 126"
  "calculateAge demo_platform 1907668800000 (Some (ustr ''2000-06-15'')) None = Some 29"
  "calculateAge demo_platform 1907755200000 (Some (ustr ''2000-06-15'')) None = Some 30"
  by (simp_all add: calculateAge_def demo_birth_dates demo_getters Let_def
        demo_calendar_1900_01_01 demo_calendar_2026_11_03 demo_calendar_2000_06_15
        demo_calendar_2030_06_14 demo_calendar_2030_06_15)

lemma calculateAgeStats_single:
  "stat_min (calculateAgeStats P [x]) = x" "stat_max (calculateAgeStats P [x]) = x"
  by (simp_all add: calculateAgeStats_def Let_def)

lemma patient_born_fields:
  "pat_birthDate (patient_born d) = Some (ustr d)" "pat_deceasedDateTime (patient_born d) = None"
  by (simp_all add: patient_born_def empty_patient_def)

text \<open>
  Claim C5, at a patient born on 1900-01-01 and alive on 2026-11-03: the age, 126, is
  defined and enters the age statistics, but no bucket of the age histogram counts it,
  the last bucket, labelled \<open>90+\<close>, ending at 120.  (By \<open>age_histogram_total\<close> the
  bucket counts of the age histogram add up to the number of ages from 0 to 120; by
  \<open>los_histogram_total\<close> and \<open>per_patient_histogram_total\<close> the other two histograms
  count every value, the first on a platform whose rounding keeps a quotient of
  non-negative numbers non-negative.)
\<close>

theorem age_histogram_over_120:
  "defined_ages demo_platform (\<lambda>i. 1793664000000) 0 [patient_born ''1900-01-01''] = [126]
   \<and> stat_max (ageStats (analyzePatients demo_platform (\<lambda>i. 1793664000000)
         [patient_born ''1900-01-01''])) = 126
   \<and> bucket_total (ageDistribution (analyzePatients demo_platform (\<lambda>i. 1793664000000)
         [patient_born ''1900-01-01''])) = 0"
proof -
  have a: "defined_ages demo_platform (\<lambda>i. 1793664000000) 0 [patient_born ''1900-01-01''] = [126]"
    by (simp add: patient_born_def empty_patient_def demo_ages)
  show ?thesis
    by (simp add: analyzePatients_ages createAgeHistogram_total patient_born_fields demo_ages
          calculateAgeStats_single)
qed

subsection \<open>Repeating the pipeline\<close>












theorem analyzePatients_mortality_partition_witness:
  "livingCount (analyzePatients demo_platform (\<lambda>i. 0) two_patients) = 1
   \<and> deceasedCount (analyzePatients demo_platform (\<lambda>i. 0) two_patients) = 1
   \<and> totalPatients (analyzePatients demo_platform (\<lambda>i. 0) two_patients) = 2"
proof -
  have d: "filter is_deceased two_patients
           = [empty_patient\<lparr>pat_gender := Some (ustr ''male''), pat_deceasedBoolean := Some True\<rparr>]"
    by (simp add: two_patients_def is_deceased_def empty_patient_def)
  have l: "length (filter (\<lambda>p. \<not> is_deceased p) two_patients) = 1"
    by (simp add: two_patients_def is_deceased_def empty_patient_def)
  show ?thesis
    using analyzePatients_mortality_partition [of demo_platform "\<lambda>i. 0" two_patients]
    by (simp add: d l)
qed

end
